theory Spec2Isabelle
  imports Main "HOL-Library.Word"
begin

section \<open>JavaScript strings and values\<close>

text \<open>
  A JavaScript string is a sequence of UTF-16 code units.  String literals of the source
  that are plain ASCII are written with \<open>ascii\<close>; the two non-ASCII literals of the
  source (the ellipsis U+2026 and the multiplication sign U+00D7) are given by their
  code unit.
\<close>

type_synonym jsstring = "16 word list"

definition ascii :: "string \<Rightarrow> jsstring" where
  "ascii s = map of_char s"

text \<open>
  \<open>String.prototype.trim\<close> removes WhiteSpace and LineTerminator code points from both
  ends; \<open>parseInt\<close> skips the same set at the front.
\<close>

definition is_ws :: "16 word \<Rightarrow> bool" where
  "is_ws c \<longleftrightarrow>
     c = 0x09 \<or> c = 0x0A \<or> c = 0x0B \<or> c = 0x0C \<or> c = 0x0D \<or> c = 0x20 \<or> c = 0xA0 \<or>
     c = 0x1680 \<or> (0x2000 \<le> c \<and> c \<le> 0x200A) \<or> c = 0x2028 \<or> c = 0x2029 \<or>
     c = 0x202F \<or> c = 0x205F \<or> c = 0x3000 \<or> c = 0xFEFF"

definition trim :: "jsstring \<Rightarrow> jsstring" where
  "trim s = rev (dropWhile is_ws (rev (dropWhile is_ws s)))"

text \<open>\<open>s.includes(t)\<close>: \<open>t\<close> occurs in \<open>s\<close> as a contiguous run of code units.\<close>

fun starts_with :: "jsstring \<Rightarrow> jsstring \<Rightarrow> bool" where
  "starts_with s [] = True"
| "starts_with [] (c # t) = False"
| "starts_with (d # s) (c # t) = (d = c \<and> starts_with s t)"

fun str_includes :: "jsstring \<Rightarrow> jsstring \<Rightarrow> bool" where
  "str_includes [] t = (t = [])"
| "str_includes (d # s) t = (starts_with (d # s) t \<or> str_includes s t)"

text \<open>Decimal rendering of a number inside a template literal.\<close>

function show_nat :: "nat \<Rightarrow> jsstring" where
  "show_nat n =
     (if n < 10 then [of_nat (48 + n)]
      else show_nat (n div 10) @ [of_nat (48 + n mod 10)])"
  by pat_completeness auto
termination
  by (relation "measure id") auto

declare show_nat.simps [simp del]

text \<open>
  \<open>Number::toString\<close> on an integer: plain decimal below \<open>10^21\<close>; from there on the
  digits without their trailing zeros, a point after the first if there are more, and
  the exponent (\<open>1e+21\<close>, \<open>1.5e+22\<close>).
\<close>

definition show_exponent :: "nat \<Rightarrow> jsstring" where
  "show_exponent n =
     (let ds = show_nat n;
          sig = rev (dropWhile (\<lambda>c. c = 0x30) (rev ds))
      in (if length sig \<le> 1 then sig else hd sig # ascii ''.'' @ tl sig) @
         ascii ''e+'' @ show_nat (length ds - 1))"

definition show_magnitude :: "nat \<Rightarrow> jsstring" where
  "show_magnitude n = (if n < 10 ^ 21 then show_nat n else show_exponent n)"

definition show_int :: "int \<Rightarrow> jsstring" where
  "show_int n =
     (if n < 0 then ascii ''-'' @ show_magnitude (nat (- n)) else show_magnitude (nat n))"

text \<open>
  \<open>Number::toString\<close> on a number with digits after the point, \<open>m / 10^e\<close> with \<open>m\<close>
  not a multiple of ten and \<open>0 < e\<close>: with \<open>n\<close> the number of digits of \<open>m\<close> before the
  point, the digits with the point among them for \<open>0 < n\<close>, \<open>0.\<close> and up to five zeros
  before the digits for \<open>-6 < n \<le> 0\<close>, and the exponent form below that (\<open>2.5\<close>,
  \<open>0.000001\<close>, \<open>5e-7\<close>, \<open>1.5e-10\<close>).
\<close>

definition show_fraction :: "nat \<Rightarrow> nat \<Rightarrow> jsstring" where
  "show_fraction m e =
     (let ds = show_nat m;
          n = int (length ds) - int e
      in if 0 < n \<and> n \<le> 21 then take (nat n) ds @ ascii ''.'' @ drop (nat n) ds
         else if - 6 < n \<and> n \<le> 0 then ascii ''0.'' @ replicate (nat (- n)) 0x30 @ ds
         else (if length ds \<le> 1 then ds else hd ds # ascii ''.'' @ tl ds) @
              (if 0 < n then ascii ''e+'' else ascii ''e-'') @ show_nat (nat \<bar>n - 1\<bar>))"

text \<open>Trailing zeros after the point are not written: \<open>250 / 10^2\<close> is \<open>25 / 10\<close>.\<close>

fun shortest :: "nat \<Rightarrow> nat \<Rightarrow> nat \<times> nat" where
  "shortest m 0 = (m, 0)"
| "shortest m (Suc e) = (if m mod 10 = 0 then shortest (m div 10) e else (m, Suc e))"

definition show_decimal :: "bool \<Rightarrow> nat \<Rightarrow> nat \<Rightarrow> jsstring" where
  "show_decimal neg m e =
     (case shortest m e of
        (m1, 0) \<Rightarrow> show_int (if neg then - int m1 else int m1)
      | (m1, Suc e1) \<Rightarrow> (if neg then ascii ''-'' else []) @ show_fraction m1 (Suc e1))"

text \<open>
  A number is \<open>NaN\<close> or is given by its decimal form as JavaScript writes it, which
  determines it: \<open>Num n\<close> is the integer written with the digits of \<open>n\<close> (every integer
  up to \<open>2^53\<close> in magnitude, and beyond it the numbers whose shortest decimal form is
  \<open>n\<close>: \<open>Num (10^21)\<close> is \<open>1e21\<close>), and \<open>Frac neg m e\<close> is \<open>m / 10^e\<close>, negated if \<open>neg\<close>
  (\<open>Frac False 25 1\<close> is \<open>2.5\<close>).  Negative zero is not told from zero: both are
  written \<open>0\<close> and both are falsy.  The infinities do not occur: neither JSON nor the
  preference store holds one, and what \<open>parseInt\<close> makes of a run of digits is only
  compared with 10 and 1.  An object is the list of its own properties, each key once.
\<close>

datatype jsnum = NaN | Num int | Frac bool nat nat

datatype jsval =
    JUndefined
  | JNull
  | JBool bool
  | JNum jsnum
  | JStr jsstring
  | JArr "jsval list"
  | JObj "(jsstring \<times> jsval) list"

text \<open>\<open>ToBoolean\<close>, as used by \<open>!x\<close>, \<open>x || y\<close> and \<open>if (x)\<close>.\<close>

fun truthy :: "jsval \<Rightarrow> bool" where
  "truthy JUndefined = False"
| "truthy JNull = False"
| "truthy (JBool b) = b"
| "truthy (JNum NaN) = False"
| "truthy (JNum (Num n)) = (n \<noteq> 0)"
| "truthy (JNum (Frac neg m e)) = (m \<noteq> 0)"
| "truthy (JStr s) = (s \<noteq> [])"
| "truthy (JArr xs) = True"
| "truthy (JObj fs) = True"

definition or_else :: "jsval \<Rightarrow> jsval \<Rightarrow> jsval" where
  "or_else a b = (if truthy a then a else b)"

fun join_comma :: "jsstring list \<Rightarrow> jsstring" where
  "join_comma [] = []"
| "join_comma [s] = s"
| "join_comma (s # t # ss) = s @ ascii '','' @ join_comma (t # ss)"

text \<open>\<open>ToString\<close> (\<open>String(v)\<close>, template literals, the string argument of \<open>parseInt\<close>).\<close>

fun to_string :: "jsval \<Rightarrow> jsstring" where
  "to_string JUndefined = ascii ''undefined''"
| "to_string JNull = ascii ''null''"
| "to_string (JBool b) = (if b then ascii ''true'' else ascii ''false'')"
| "to_string (JNum NaN) = ascii ''NaN''"
| "to_string (JNum (Num n)) = show_int n"
| "to_string (JNum (Frac neg m e)) = show_decimal neg m e"
| "to_string (JStr s) = s"
| "to_string (JArr xs) =
     join_comma (map (\<lambda>x. if x = JUndefined \<or> x = JNull then [] else to_string x) xs)"
| "to_string (JObj fs) = ascii ''[object Object]''"

text \<open>
  Errors are \<open>Error\<close> objects: a name and a message.  \<open>String(err)\<close> is
  \<open>Error.prototype.toString\<close>.
\<close>

datatype js_error = JsError (err_name: jsstring) (err_message: jsstring)

definition Error :: "jsstring \<Rightarrow> js_error" where
  "Error msg = JsError (ascii ''Error'') msg"

definition TypeError :: "jsstring \<Rightarrow> js_error" where
  "TypeError msg = JsError (ascii ''TypeError'') msg"

definition URIError :: "jsstring \<Rightarrow> js_error" where
  "URIError msg = JsError (ascii ''URIError'') msg"

definition error_to_string :: "js_error \<Rightarrow> jsstring" where
  "error_to_string e =
     (if err_name e = [] then err_message e
      else if err_message e = [] then err_name e
      else err_name e @ ascii '': '' @ err_message e)"

text \<open>
  Property read \<open>v.summary\<close>: throws on \<open>null\<close> and \<open>undefined\<close>, looks the key up in
  an object, and is \<open>undefined\<close> on every other value.
\<close>

definition get_summary :: "jsval \<Rightarrow> js_error + jsval" where
  "get_summary v =
     (case v of
        JUndefined \<Rightarrow>
          Inl (TypeError (ascii ''Cannot read properties of undefined (reading 'summary')''))
      | JNull \<Rightarrow>
          Inl (TypeError (ascii ''Cannot read properties of null (reading 'summary')''))
      | JObj fs \<Rightarrow>
          (case map_of fs (ascii ''summary'') of None \<Rightarrow> Inr JUndefined | Some x \<Rightarrow> Inr x)
      | _ \<Rightarrow> Inr JUndefined)"

section \<open>The page and the host\<close>

text \<open>
  The document of the tab is its \<open>body\<close> element, a tree.  Of an element the model keeps
  the tag, the id, \<open>style.opacity\<close> and the children; the other style assignments of
  the renderers and their event listeners change none of these.
\<close>

datatype node =
    TextNode jsstring
  | Element (tag: jsstring) (elem_id: jsstring) (opacity: jsstring) (kids: "node list")

record response =
  status :: nat
  body :: jsstring

datatype fetch_result = Rejected js_error | Responded response

record request =
  req_text :: jsval
  req_tone :: jsval
  req_maxSentences :: jsval

text \<open>
  Everything the extension does to the outside is appended to one chronological log:
  a \<open>fetch\<close> (URL and the object given to \<open>JSON.stringify\<close>), a \<open>setTimeout\<close> wait, a
  renderer injected into the page (with the page as it left it), a tab opened.
\<close>

datatype event =
    Fetched jsstring request
  | Slept nat
  | Rendered node
  | Opened jsstring

record world =
  server :: "nat \<Rightarrow> fetch_result"
  fetches :: nat
  log :: "event list"
  JSON_parse :: "jsstring \<Rightarrow> jsval option"
  stored_tone :: jsval
  stored_maxSentences :: jsval
  injection :: "js_error option"
  selection :: jsstring
  page :: node

text \<open>
  \<open>server w i\<close> is what the \<open>i\<close>-th \<open>fetch\<close> of the run settles with, the body being
  what \<open>res.text()\<close> then gives; \<open>injection w\<close> is \<open>Some e\<close> when the host rejects
  \<open>chrome.scripting.executeScript\<close> on the tab with \<open>e\<close>; \<open>JSON_parse\<close> is \<open>None\<close>
  where \<open>JSON.parse\<close> throws.  Reading the preferences and opening a tab always
  succeed.
\<close>

definition fetch :: "jsstring \<Rightarrow> request \<Rightarrow> world \<Rightarrow> fetch_result \<times> world" where
  "fetch url b w =
     (server w (fetches w),
      w\<lparr>fetches := Suc (fetches w), log := log w @ [Fetched url b]\<rparr>)"

definition sleep :: "nat \<Rightarrow> world \<Rightarrow> world" where
  "sleep ms w = w\<lparr>log := log w @ [Slept ms]\<rparr>"

section \<open>Configuration of the two deployments\<close>

record config =
  API_BASE :: jsstring
  RETRY_BASE_DELAY_MS :: nat

definition MAX_RETRIES :: nat where
  "MAX_RETRIES = 3"

definition onrender_config :: config where
  "onrender_config =
     \<lparr>API_BASE = ascii ''https://summarize-selection.onrender.com'',
      RETRY_BASE_DELAY_MS = 600\<rparr>"

definition ngrok_config :: config where
  "ngrok_config =
     \<lparr>API_BASE = ascii ''https://dbb18930007f.ngrok-free.app'',
      RETRY_BASE_DELAY_MS = 500\<rparr>"

section \<open>HTTP helper with 429 backoff\<close>

definition res_ok :: "response \<Rightarrow> bool" where
  "res_ok r \<longleftrightarrow> 200 \<le> status r \<and> status r \<le> 299"

definition invalid_json :: "jsstring \<Rightarrow> js_error" where
  "invalid_json txt = Error (ascii ''Invalid JSON from backend: '' @ txt)"

definition http_error :: "response \<Rightarrow> js_error" where
  "http_error r =
     Error (ascii ''HTTP '' @ show_nat (status r) @ ascii '': '' @
            (if body r = [] then ascii ''Request failed'' else body r))"

function postJSON_loop ::
  "jsstring \<Rightarrow> request \<Rightarrow> nat \<Rightarrow> nat \<Rightarrow> world \<Rightarrow> (js_error + jsval) \<times> world" where
  "postJSON_loop url b attempt delay w =
     (case fetch url b w of
        (Rejected e, w1) \<Rightarrow> (Inl e, w1)
      | (Responded res, w1) \<Rightarrow>
          if res_ok res then
            (case JSON_parse w1 (body res) of
               Some v \<Rightarrow> (Inr v, w1)
             | None \<Rightarrow> (Inl (invalid_json (body res)), w1))
          else if status res = 429 \<and> attempt < MAX_RETRIES then
            postJSON_loop url b (attempt + 1) (delay * 2) (sleep delay w1)
          else (Inl (http_error res), w1))"
  by pat_completeness auto
termination
  by (relation "measure (\<lambda>(url, b, attempt, delay, w). MAX_RETRIES - attempt)") auto

declare postJSON_loop.simps [simp del]

definition postJSON ::
  "config \<Rightarrow> jsstring \<Rightarrow> request \<Rightarrow> world \<Rightarrow> (js_error + jsval) \<times> world" where
  "postJSON cfg path b w = postJSON_loop (API_BASE cfg @ path) b 0 (RETRY_BASE_DELAY_MS cfg) w"

section \<open>Request builder\<close>

definition no_text_provided :: js_error where
  "no_text_provided = Error (ascii ''No text provided to summarize.'')"

definition dflt :: "jsval \<Rightarrow> jsval \<Rightarrow> jsval" where
  "dflt d v = (if v = JUndefined then d else v)"

definition summarize ::
  "config \<Rightarrow> jsval \<Rightarrow> jsval \<Rightarrow> jsval \<Rightarrow> world \<Rightarrow> (js_error + jsval) \<times> world" where
  "summarize cfg txt tone maxSentences w =
     (if \<not> truthy txt then (Inl no_text_provided, w)
      else case txt of
        JStr s \<Rightarrow>
          if trim s = [] then (Inl no_text_provided, w)
          else postJSON cfg (ascii ''/summarize'')
                 \<lparr>req_text = txt,
                  req_tone = dflt (JStr (ascii ''precise'')) tone,
                  req_maxSentences = dflt (JNum (Num 3)) maxSentences\<rparr> w
      | _ \<Rightarrow> (Inl (TypeError (ascii ''text.trim is not a function'')), w))"

section \<open>Clamping the sentence count\<close>

definition is_digit :: "16 word \<Rightarrow> bool" where
  "is_digit c \<longleftrightarrow> 0x30 \<le> c \<and> c \<le> 0x39"

definition digits_value :: "jsstring \<Rightarrow> int" where
  "digits_value ds = foldl (\<lambda>acc c. acc * 10 + (uint c - 48)) 0 ds"

text \<open>
  \<open>parseInt(v, 10)\<close>: the argument is converted to a string, leading white space is
  skipped, one sign is read, then the longest run of decimal digits; no digit gives
  \<open>NaN\<close>.  The result is the integer the digits denote.
\<close>

definition parseInt :: "jsval \<Rightarrow> jsnum" where
  "parseInt v =
     (let s = dropWhile is_ws (to_string v);
          neg = (s \<noteq> [] \<and> hd s = 0x2D);
          s1 = (if s \<noteq> [] \<and> (hd s = 0x2D \<or> hd s = 0x2B) then tl s else s);
          ds = takeWhile is_digit s1
      in if ds = [] then NaN
         else Num (if neg then - digits_value ds else digits_value ds))"

text \<open>
  \<open>Math.min\<close> and \<open>Math.max\<close> of two numbers: \<open>NaN\<close> if either is, else the smaller
  (the larger) by value, \<open>a / 10^d \<le> b / 10^e\<close> being \<open>a * 10^e \<le> b * 10^d\<close>.
\<close>

fun scaled :: "jsnum \<Rightarrow> int \<times> nat" where
  "scaled NaN = (0, 0)"
| "scaled (Num n) = (n, 0)"
| "scaled (Frac neg m e) = (if neg then - int m else int m, e)"

definition num_le :: "jsnum \<Rightarrow> jsnum \<Rightarrow> bool" where
  "num_le x y \<longleftrightarrow> fst (scaled x) * 10 ^ snd (scaled y) \<le> fst (scaled y) * 10 ^ snd (scaled x)"

fun math_min :: "jsnum \<Rightarrow> jsnum \<Rightarrow> jsnum" where
  "math_min (Num a) (Num b) = Num (min a b)"
| "math_min NaN y = NaN"
| "math_min x NaN = NaN"
| "math_min x y = (if num_le x y then x else y)"

fun math_max :: "jsnum \<Rightarrow> jsnum \<Rightarrow> jsnum" where
  "math_max (Num a) (Num b) = Num (max a b)"
| "math_max NaN y = NaN"
| "math_max x NaN = NaN"
| "math_max x y = (if num_le x y then y else x)"

text \<open>
  The expression \<open>Math.max(1, Math.min(10, parseInt(raw || "3", 10)))\<close>, written out
  in the context-menu and shortcut handlers and in the popup.
\<close>

definition clampMaxSentences :: "jsval \<Rightarrow> jsnum" where
  "clampMaxSentences raw =
     math_max (Num 1) (math_min (Num 10) (parseInt (or_else raw (JStr (ascii ''3'')))))"

section \<open>The document tree\<close>

text \<open>
  \<open>document.getElementById\<close>: the first element in tree order with the id, here as its
  path from the root (the child indices on the way down).
\<close>

fun find_id :: "jsstring \<Rightarrow> node \<Rightarrow> nat list option"
  and find_id_list :: "jsstring \<Rightarrow> node list \<Rightarrow> nat \<Rightarrow> nat list option" where
  "find_id i (TextNode t) = None"
| "find_id i (Element tg j op ks) = (if j = i then Some [] else find_id_list i ks 0)"
| "find_id_list i [] n = None"
| "find_id_list i (k # ks) n =
     (case find_id i k of Some p \<Rightarrow> Some (n # p) | None \<Rightarrow> find_id_list i ks (Suc n))"

fun update_at :: "nat list \<Rightarrow> (node \<Rightarrow> node) \<Rightarrow> node \<Rightarrow> node" where
  "update_at [] f nd = f nd"
| "update_at (n # p) f (TextNode t) = TextNode t"
| "update_at (n # p) f (Element tg j op ks) =
     (if n < length ks then Element tg j op (ks[n := update_at p f (ks ! n)])
      else Element tg j op ks)"

text \<open>\<open>below q p\<close>: the node at path \<open>p\<close> is a proper descendant of the node at \<open>q\<close>.\<close>

fun below :: "nat list \<Rightarrow> nat list \<Rightarrow> bool" where
  "below [] p = (p \<noteq> [])"
| "below (a # q) [] = False"
| "below (a # q) (b # p) = (a = b \<and> below q p)"

fun count_id :: "jsstring \<Rightarrow> node \<Rightarrow> nat" where
  "count_id i (TextNode t) = 0"
| "count_id i (Element tg j op ks) = (if j = i then 1 else 0) + sum_list (map (count_id i) ks)"

fun child_count :: "node \<Rightarrow> nat" where
  "child_count (TextNode t) = 0"
| "child_count (Element tg j op ks) = length ks"

fun appendChild :: "node \<Rightarrow> node \<Rightarrow> node" where
  "appendChild c (TextNode t) = TextNode t"
| "appendChild c (Element tg j op ks) = Element tg j op (ks @ [c])"

text \<open>
  The \<open>textContent\<close> setter replaces the children by one text node, or by nothing for
  the empty string; \<open>null\<close> and \<open>undefined\<close> are set as the empty string.
\<close>

definition dom_text :: "jsval \<Rightarrow> jsstring" where
  "dom_text v = (if v = JUndefined \<or> v = JNull then [] else to_string v)"

definition text_kids :: "jsstring \<Rightarrow> node list" where
  "text_kids t = (if t = [] then [] else [TextNode t])"

fun set_textContent :: "jsstring \<Rightarrow> node \<Rightarrow> node" where
  "set_textContent t (TextNode u) = TextNode t"
| "set_textContent t (Element tg j op ks) = Element tg j op (text_kids t)"

fun set_opacity :: "jsstring \<Rightarrow> node \<Rightarrow> node" where
  "set_opacity v (TextNode u) = TextNode u"
| "set_opacity v (Element tg j op ks) = Element tg j v ks"

fun textContent :: "node \<Rightarrow> jsstring" where
  "textContent (TextNode t) = t"
| "textContent (Element tg j op ks) = concat (map textContent ks)"

fun node_at :: "nat list \<Rightarrow> node \<Rightarrow> node option" where
  "node_at [] nd = Some nd"
| "node_at (n # p) (TextNode t) = None"
| "node_at (n # p) (Element tg j op ks) = (if n < length ks then node_at p (ks ! n) else None)"

section \<open>Injected renderers\<close>

definition div_tag :: jsstring where
  "div_tag = ascii ''div''"

definition button_tag :: jsstring where
  "button_tag = ascii ''button''"

definition bubble_id :: jsstring where
  "bubble_id = ascii ''summarize-bubble''"

definition bubble_body_id :: jsstring where
  "bubble_body_id = bubble_id @ ascii ''-body''"

definition bubble_header :: node where
  "bubble_header =
     Element div_tag [] (ascii ''0.85'')
       [TextNode (ascii ''Summary''),
        Element div_tag [] []
          [Element button_tag [] [] [TextNode (ascii ''Copy'')],
           Element button_tag [] [] [TextNode [0xD7]]]]"

definition new_bubble :: node where
  "new_bubble =
     Element div_tag bubble_id [] [bubble_header, Element div_tag bubble_body_id [] []]"

text \<open>
  \<open>upsertSummaryBubble(text, {loading})\<close> of \<open>src/extension/background.js\<close>.  \<open>el\<close> is
  the element found or created at the start; the opacity is written to that same
  element, which is no longer in the document if the \<open>textContent\<close> assignment has
  removed it.
\<close>

definition upsertSummaryBubble :: "jsval \<Rightarrow> bool \<Rightarrow> node \<Rightarrow> node" where
  "upsertSummaryBubble txt loading doc =
     (let (doc1, el) =
            (case find_id bubble_id doc of
               Some p \<Rightarrow> (doc, p)
             | None \<Rightarrow> (appendChild new_bubble doc, [child_count doc]));
          (doc2, attached) =
            (case find_id bubble_body_id doc1 of
               Some q \<Rightarrow> (update_at q (set_textContent (dom_text txt)) doc1, \<not> below q el)
             | None \<Rightarrow> (doc1, True))
      in if attached
         then update_at el (set_opacity (if loading then ascii ''0.75'' else ascii ''1'')) doc2
         else doc2)"

text \<open>
  \<open>inPageRenderBubble(summaryText)\<close> of the other worker: a new element on every call.
  Its removal after 20 seconds is a later timer event and not part of the call.
\<close>

definition transient_bubble :: "jsstring \<Rightarrow> node" where
  "transient_bubble t =
     Element div_tag [] [] [bubble_header, Element div_tag [] [] (text_kids t)]"

definition inPageRenderBubble :: "jsval \<Rightarrow> node \<Rightarrow> node" where
  "inPageRenderBubble summaryText doc = appendChild (transient_bubble (dom_text summaryText)) doc"

section \<open>Sequencing\<close>

type_synonym 'a outcome = "(js_error + 'a) \<times> world"

definition bind :: "'a outcome \<Rightarrow> ('a \<Rightarrow> world \<Rightarrow> 'b outcome) \<Rightarrow> 'b outcome" where
  "bind m f = (case m of (Inl e, w) \<Rightarrow> (Inl e, w) | (Inr x, w) \<Rightarrow> f x w)"

definition try_catch :: "'a outcome \<Rightarrow> (js_error \<Rightarrow> world \<Rightarrow> 'a outcome) \<Rightarrow> 'a outcome" where
  "try_catch m h = (case m of (Inl e, w) \<Rightarrow> h e w | (Inr x, w) \<Rightarrow> (Inr x, w))"

definition executeScript :: "(node \<Rightarrow> node) \<Rightarrow> world \<Rightarrow> unit outcome" where
  "executeScript f w =
     (case injection w of
        Some e \<Rightarrow> (Inl e, w)
      | None \<Rightarrow> (Inr (), w\<lparr>page := f (page w), log := log w @ [Rendered (f (page w))]\<rparr>))"

text \<open>The probe \<open>() => (window.getSelection()?.toString() || "").trim()\<close>.\<close>

definition probe_selection :: "world \<Rightarrow> jsstring outcome" where
  "probe_selection w =
     (case injection w of Some e \<Rightarrow> (Inl e, w) | None \<Rightarrow> (Inr (trim (selection w)), w))"

definition tab_missing :: "int option \<Rightarrow> bool" where
  "tab_missing t \<longleftrightarrow> t = None \<or> t = Some 0"

definition summarize_selection :: jsstring where
  "summarize_selection = ascii ''summarize-selection''"

definition loading_text :: jsstring where
  "loading_text = ascii ''Summarizing'' @ [0x2026]"

definition no_text_selected :: jsstring where
  "no_text_selected = ascii ''No text selected.''"

definition no_summary_returned :: jsstring where
  "no_summary_returned = ascii ''(no summary returned)''"

definition error_text :: "js_error \<Rightarrow> jsval" where
  "error_text err = JStr (ascii ''Error: '' @ error_to_string err)"

record menu_info =
  menuItemId :: jsstring
  selectionText :: "jsstring option"

section \<open>The worker of src/extension/background.js\<close>

definition showBubble :: "jsval \<Rightarrow> bool \<Rightarrow> world \<Rightarrow> unit outcome" where
  "showBubble txt loading w = executeScript (upsertSummaryBubble txt loading) w"

definition handleSummarizeInTab :: "config \<Rightarrow> jsstring \<Rightarrow> world \<Rightarrow> unit outcome" where
  "handleSummarizeInTab cfg selectedText w =
     bind (showBubble (JStr loading_text) True w) (\<lambda>u w1.
       try_catch
         (let tone = or_else (stored_tone w1) (JStr (ascii ''precise''));
              maxSentences = JNum (clampMaxSentences (stored_maxSentences w1))
          in bind (summarize cfg (JStr selectedText) tone maxSentences w1) (\<lambda>result w2.
             bind (get_summary result, w2) (\<lambda>s w3.
               showBubble (or_else s (JStr no_summary_returned)) False w3)))
         (\<lambda>err w4. showBubble (error_text err) False w4))"

definition onClicked :: "config \<Rightarrow> menu_info \<Rightarrow> int option \<Rightarrow> world \<Rightarrow> unit outcome" where
  "onClicked cfg info tab w =
     (if menuItemId info \<noteq> summarize_selection \<or> tab_missing tab then (Inr (), w)
      else
        let selectedText = trim (case selectionText info of None \<Rightarrow> [] | Some s \<Rightarrow> s)
        in if selectedText = [] then showBubble (JStr no_text_selected) False w
           else handleSummarizeInTab cfg selectedText w)"

definition onCommand :: "config \<Rightarrow> jsstring \<Rightarrow> int option \<Rightarrow> world \<Rightarrow> unit outcome" where
  "onCommand cfg command tab w =
     (if command \<noteq> summarize_selection then (Inr (), w)
      else if tab_missing tab then (Inr (), w)
      else
        try_catch
          (bind (probe_selection w) (\<lambda>selectedText w1.
             if selectedText = [] then showBubble (JStr no_text_selected) False w1
             else handleSummarizeInTab cfg selectedText w1))
          (\<lambda>err w2. showBubble (error_text err) False w2))"

section \<open>The worker of the other deployment\<close>

text \<open>
  The second copy of the service worker, \<open>src/unnamed/part_001\<close> (its \<open>API_BASE\<close> is an
  ngrok tunnel), renders with \<open>inPageRenderBubble\<close> and, where the host refuses the
  injection, opens a \<open>data:\<close> document instead.  Its \<open>postJSON\<close> and \<open>summarize\<close> are
  those of the first worker but for the configuration.
\<close>

text \<open>
  \<open>encodeURIComponent\<close>: the letters, the digits and \<open>-_.!~*'()\<close> stay; every other
  code point goes to the bytes of its UTF-8 form, each as \<open>%\<close> and two upper-case hex
  digits; a surrogate without its partner throws \<open>URIError\<close>.
\<close>

definition is_high :: "16 word \<Rightarrow> bool" where
  "is_high c \<longleftrightarrow> 0xD800 \<le> c \<and> c \<le> 0xDBFF"

definition is_low :: "16 word \<Rightarrow> bool" where
  "is_low c \<longleftrightarrow> 0xDC00 \<le> c \<and> c \<le> 0xDFFF"

definition code_point :: "16 word \<Rightarrow> 16 word \<Rightarrow> nat" where
  "code_point h l = 0x10000 + (unat h - 0xD800) * 0x400 + (unat l - 0xDC00)"

definition utf8 :: "nat \<Rightarrow> nat list" where
  "utf8 cp =
     (if cp < 0x80 then [cp]
      else if cp < 0x800 then [0xC0 + cp div 0x40, 0x80 + cp mod 0x40]
      else if cp < 0x10000 then
        [0xE0 + cp div 0x1000, 0x80 + cp div 0x40 mod 0x40, 0x80 + cp mod 0x40]
      else
        [0xF0 + cp div 0x40000, 0x80 + cp div 0x1000 mod 0x40,
         0x80 + cp div 0x40 mod 0x40, 0x80 + cp mod 0x40])"

definition hex_digit :: "nat \<Rightarrow> 16 word" where
  "hex_digit n = (if n < 10 then of_nat (0x30 + n) else of_nat (0x41 + (n - 10)))"

definition percent :: "nat \<Rightarrow> jsstring" where
  "percent b = [0x25, hex_digit (b div 16), hex_digit (b mod 16)]"

definition percent_utf8 :: "nat \<Rightarrow> jsstring" where
  "percent_utf8 cp = concat (map percent (utf8 cp))"

definition uri_unescaped :: "16 word \<Rightarrow> bool" where
  "uri_unescaped c \<longleftrightarrow>
     (0x41 \<le> c \<and> c \<le> 0x5A) \<or> (0x61 \<le> c \<and> c \<le> 0x7A) \<or> (0x30 \<le> c \<and> c \<le> 0x39) \<or>
     c \<in> set (ascii ''-_.!~*'()'')"

definition uri_malformed :: js_error where
  "uri_malformed = URIError (ascii ''URI malformed'')"

definition prepend :: "jsstring \<Rightarrow> js_error + jsstring \<Rightarrow> js_error + jsstring" where
  "prepend p r = (case r of Inl e \<Rightarrow> Inl e | Inr s \<Rightarrow> Inr (p @ s))"

fun encodeURIComponent :: "jsstring \<Rightarrow> js_error + jsstring" where
  "encodeURIComponent [] = Inr []"
| "encodeURIComponent [c] =
     (if uri_unescaped c then Inr [c]
      else if is_high c \<or> is_low c then Inl uri_malformed
      else Inr (percent_utf8 (unat c)))"
| "encodeURIComponent (c # d # s) =
     (if uri_unescaped c then prepend [c] (encodeURIComponent (d # s))
      else if is_low c then Inl uri_malformed
      else if is_high c then
        (if is_low d then prepend (percent_utf8 (code_point c d)) (encodeURIComponent s)
         else Inl uri_malformed)
      else prepend (percent_utf8 (unat c)) (encodeURIComponent (d # s)))"

definition replace_all :: "16 word \<Rightarrow> jsstring \<Rightarrow> jsstring \<Rightarrow> jsstring" where
  "replace_all c r s = concat (map (\<lambda>d. if d = c then r else [d]) s)"

definition escape_html :: "jsstring \<Rightarrow> jsstring" where
  "escape_html t =
     replace_all 0x3E (ascii ''&gt;'')
       (replace_all 0x3C (ascii ''&lt;'')
          (replace_all 0x26 (ascii ''&amp;'') t))"

definition html_prefix :: jsstring where
  \<open>html_prefix =
     [0x0A] @ ascii ''      <!doctype html><meta charset="utf-8">'' @
     [0x0A] @ ascii ''      <title>Summary</title>'' @
     [0x0A] @ ascii ''      <div style="font:14px/1.5 system-ui,-apple-system,Segoe UI,Roboto,Helvetica,Arial;margin:24px;max-width:800px">'' @
     [0x0A] @ ascii ''        <h1 style="font-size:18px;margin:0 0 10px">Summary</h1>'' @
     [0x0A] @ ascii ''        <pre style="white-space:pre-wrap;background:#fafafa;padding:12px;border-radius:10px;border:1px solid #eee">''\<close>

definition html_suffix :: jsstring where
  "html_suffix = ascii ''</pre>'' @ [0x0A] @ ascii ''      </div>''"

definition fallback_html :: "jsstring \<Rightarrow> jsstring" where
  "fallback_html t = html_prefix @ escape_html t @ html_suffix"

definition data_url_prefix :: jsstring where
  "data_url_prefix = ascii ''data:text/html;charset=utf-8,''"

definition showBubbleInTab :: "jsval \<Rightarrow> world \<Rightarrow> unit outcome" where
  "showBubbleInTab txt w =
     try_catch (executeScript (inPageRenderBubble txt) w) (\<lambda>e w1.
       case txt of
         JStr s \<Rightarrow>
           (case encodeURIComponent (fallback_html s) of
              Inl err \<Rightarrow> (Inl err, w1)
            | Inr enc \<Rightarrow> (Inr (), w1\<lparr>log := log w1 @ [Opened (data_url_prefix @ enc)]\<rparr>))
       | JUndefined \<Rightarrow>
           (Inl (TypeError (ascii ''Cannot read properties of undefined (reading 'replace')'')), w1)
       | JNull \<Rightarrow>
           (Inl (TypeError (ascii ''Cannot read properties of null (reading 'replace')'')), w1)
       | _ \<Rightarrow> (Inl (TypeError (ascii ''text.replace is not a function'')), w1))"

text \<open>
  The \<open>try\<close> block and its \<open>catch\<close> that both listeners of this worker contain, word for
  word: read the preferences, call \<open>summarize\<close>, show the summary or the placeholder; on
  any error show the error string.
\<close>

definition summarize_and_show :: "config \<Rightarrow> jsstring \<Rightarrow> world \<Rightarrow> unit outcome" where
  "summarize_and_show cfg selectedText w =
     try_catch
       (let tone = or_else (stored_tone w) (JStr (ascii ''precise''));
            maxSentences = JNum (clampMaxSentences (stored_maxSentences w))
        in bind (summarize cfg (JStr selectedText) tone maxSentences w) (\<lambda>result w2.
           bind (get_summary result, w2) (\<lambda>s w3.
             showBubbleInTab (or_else s (JStr no_summary_returned)) w3)))
       (\<lambda>err w4. showBubbleInTab (error_text err) w4)"

definition onClicked_ngrok :: "config \<Rightarrow> menu_info \<Rightarrow> int option \<Rightarrow> world \<Rightarrow> unit outcome" where
  "onClicked_ngrok cfg info tab w =
     (if menuItemId info \<noteq> summarize_selection \<or> tab_missing tab then (Inr (), w)
      else
        let selectedText = trim (case selectionText info of None \<Rightarrow> [] | Some s \<Rightarrow> s)
        in if selectedText = [] then showBubbleInTab (JStr no_text_selected) w
           else summarize_and_show cfg selectedText w)"

text \<open>
  In the shortcut listener the empty-selection notice is returned without \<open>await\<close>, so
  a rejection of it is not caught by the surrounding \<open>try\<close>; a rejection of the probe
  is.
\<close>

definition onCommand_ngrok :: "config \<Rightarrow> jsstring \<Rightarrow> int option \<Rightarrow> world \<Rightarrow> unit outcome" where
  "onCommand_ngrok cfg command tab w =
     (if command \<noteq> summarize_selection then (Inr (), w)
      else if tab_missing tab then (Inr (), w)
      else
        case probe_selection w of
          (Inl err, w1) \<Rightarrow> showBubbleInTab (error_text err) w1
        | (Inr selectedText, w1) \<Rightarrow>
            if selectedText = [] then showBubbleInTab (JStr no_text_selected) w1
            else summarize_and_show cfg selectedText w1)"

section \<open>Popup messaging\<close>

record payload =
  p_text :: jsval
  p_tone :: jsval
  p_maxSentences :: jsval

datatype reply = Reply_ok jsval | Reply_fail jsstring

text \<open>
  The \<open>SUMMARIZE_SELECTION\<close> listener, the same in both workers.  A missing payload is
  \<open>{}\<close>; a field that is absent is \<open>undefined\<close>.  No reply for another message type.
\<close>

definition onMessage ::
  "config \<Rightarrow> jsstring \<Rightarrow> payload option \<Rightarrow> world \<Rightarrow> reply option \<times> world" where
  "onMessage cfg msg_type pl w =
     (if msg_type \<noteq> ascii ''SUMMARIZE_SELECTION'' then (None, w)
      else
        let p = (case pl of
                   None \<Rightarrow> \<lparr>p_text = JUndefined, p_tone = JUndefined, p_maxSentences = JUndefined\<rparr>
                 | Some q \<Rightarrow> q)
        in case summarize cfg (p_text p)
                  (dflt (JStr (ascii ''precise'')) (p_tone p))
                  (dflt (JNum (Num 3)) (p_maxSentences p)) w of
             (Inl err, w1) \<Rightarrow> (Some (Reply_fail (error_to_string err)), w1)
           | (Inr data, w1) \<Rightarrow> (Some (Reply_ok data), w1))"

section \<open>The popup\<close>

text \<open>The script of the popup is \<open>src/unnamed/part_000\<close>.\<close>

text \<open>
  \<open>toLowerCase\<close> on the letters A to Z.  The Unicode mapping also changes code units
  beyond ASCII, but none of them into a letter of \<open>quota\<close>, the only string searched
  for in the result.
\<close>

definition toLowerCase :: "jsstring \<Rightarrow> jsstring" where
  "toLowerCase s = map (\<lambda>c. if 0x41 \<le> c \<and> c \<le> 0x5A then c + 0x20 else c) s"

definition friendly :: "jsstring \<Rightarrow> jsstring" where
  "friendly msg =
     (if str_includes msg (ascii ''429'') then ascii ''Rate limited. Try again shortly.''
      else if str_includes msg (ascii ''402'') \<or> str_includes (toLowerCase msg) (ascii ''quota'')
        then ascii ''Billing/credits issue.''
      else if str_includes msg (ascii ''502'') then ascii ''Model is busy. Try again.''
      else ascii ''Something went wrong.'')"

definition error_span :: "jsstring \<Rightarrow> jsstring" where
  \<open>error_span t = ascii ''<span class="error">'' @ t @ ascii ''</span>''\<close>

datatype out_content = Out_html jsstring | Out_text jsstring

record popup =
  toneEl_value :: jsstring
  maxEl_value :: jsstring
  statusEl_text :: jsstring
  outEl :: out_content

text \<open>The callback given to \<open>chrome.runtime.sendMessage\<close>; \<open>None\<close> is an undefined \<open>resp\<close>.\<close>

definition on_response :: "reply option \<Rightarrow> popup \<Rightarrow> (js_error + unit) \<times> popup" where
  "on_response resp pp =
     (case resp of
        Some (Reply_ok data) \<Rightarrow>
          (case get_summary data of
             Inl e \<Rightarrow> (Inl e, pp\<lparr>statusEl_text := []\<rparr>)
           | Inr s \<Rightarrow> (Inr (), pp\<lparr>statusEl_text := [], outEl := Out_text (dom_text s)\<rparr>))
      | _ \<Rightarrow>
          let e = (case resp of Some (Reply_fail x) \<Rightarrow> x | _ \<Rightarrow> []);
              msg = (if e = [] then ascii ''Request failed'' else e)
          in (Inr (), pp\<lparr>statusEl_text := [], outEl := Out_html (error_span (friendly msg))\<rparr>))"

text \<open>What a message or a stored preference keeps of a number: \<open>NaN\<close> is \<open>null\<close> in JSON.\<close>

definition json_num :: "jsnum \<Rightarrow> jsval" where
  "json_num x = (case x of NaN \<Rightarrow> JNull | _ \<Rightarrow> JNum x)"

text \<open>The click listener of the popup's button, with the worker answering its message.\<close>

definition popup_click ::
  "config \<Rightarrow> int option \<Rightarrow> popup \<Rightarrow> world \<Rightarrow> (js_error + unit) \<times> popup \<times> world" where
  "popup_click cfg tab pp w =
     (if tab_missing tab then (Inr (), pp, w)
      else
        let tone = toneEl_value pp;
            maxSentences = clampMaxSentences (JStr (maxEl_value pp));
            w1 = w\<lparr>stored_tone := JStr tone, stored_maxSentences := json_num maxSentences\<rparr>
        in case probe_selection w1 of
             (Inl e, w2) \<Rightarrow> (Inl e, pp, w2)
           | (Inr selectedText, w2) \<Rightarrow>
               if selectedText = [] then
                 (Inr (), pp\<lparr>statusEl_text := [], outEl := Out_html (error_span no_text_selected)\<rparr>, w2)
               else
                 let pp1 = pp\<lparr>statusEl_text := loading_text, outEl := Out_text []\<rparr>;
                     (resp, w3) = onMessage cfg (ascii ''SUMMARIZE_SELECTION'')
                                    (Some \<lparr>p_text = JStr selectedText, p_tone = JStr tone,
                                           p_maxSentences = json_num maxSentences\<rparr>) w2;
                     (r, pp2) = on_response resp pp1
                 in (r, pp2, w3))"

section \<open>Auxiliary notions for the statements\<close>

text \<open>A \<open>fetch\<close> that settles with status 429.\<close>

definition rate_limited :: "fetch_result \<Rightarrow> bool" where
  "rate_limited x = (case x of Rejected e \<Rightarrow> False | Responded r \<Rightarrow> status r = 429)"

text \<open>
  What \<open>k\<close> rate-limited attempts leave in the log: each request followed by its wait,
  the waits doubling from \<open>d\<close>.
\<close>

definition backoff_log :: "jsstring \<Rightarrow> request \<Rightarrow> nat \<Rightarrow> nat \<Rightarrow> event list" where
  "backoff_log url b d k = concat (map (\<lambda>i. [Fetched url b, Slept (d * 2 ^ i)]) [0..<k])"

definition retried :: "jsstring \<Rightarrow> request \<Rightarrow> nat \<Rightarrow> nat \<Rightarrow> world \<Rightarrow> world" where
  "retried url b d k w = w\<lparr>fetches := fetches w + k, log := log w @ backoff_log url b d k\<rparr>"

subsection \<open>The bubble in the page\<close>

text \<open>
  What the statements say a page looks like, written out from the node constructors and
  not through the renderers: a document with one more element after its children; the
  overlay with the fixed ids, showing text \<open>t\<close> at opacity \<open>op\<close>; the overlay without
  ids of the other worker.
\<close>

fun with_overlay :: "node \<Rightarrow> node \<Rightarrow> node" where
  "with_overlay ov (TextNode t) = TextNode t"
| "with_overlay ov (Element tg j op ks) = Element tg j op (ks @ [ov])"

definition bubble :: "jsstring \<Rightarrow> jsstring \<Rightarrow> node" where
  "bubble t op =
     Element div_tag bubble_id op
       [bubble_header,
        Element div_tag bubble_body_id [] (if t = [] then [] else [TextNode t])]"

definition with_bubble :: "jsstring \<Rightarrow> jsstring \<Rightarrow> node \<Rightarrow> node" where
  "with_bubble t op doc = with_overlay (bubble t op) doc"

definition overlay :: "jsstring \<Rightarrow> node" where
  "overlay t =
     Element div_tag [] []
       [bubble_header, Element div_tag [] [] (if t = [] then [] else [TextNode t])]"

fun is_element :: "node \<Rightarrow> bool" where
  "is_element (TextNode t) = False"
| "is_element (Element tg j op ks) = True"

text \<open>A document that does not use the two ids of the overlay.\<close>

definition bubble_free :: "node \<Rightarrow> bool" where
  "bubble_free doc \<longleftrightarrow>
     is_element doc \<and> count_id bubble_id doc = 0 \<and> count_id bubble_body_id doc = 0"

text \<open>
  The page of a tab whose own document is \<open>doc\<close>: either the worker has not rendered
  into it yet, or it holds the overlay of an earlier render.
\<close>

definition bubble_page :: "node \<Rightarrow> node \<Rightarrow> bool" where
  "bubble_page doc p \<longleftrightarrow> bubble_free doc \<and> (p = doc \<or> (\<exists>t op. p = with_bubble t op doc))"

definition opacity_for :: "bool \<Rightarrow> jsstring" where
  "opacity_for loading = (if loading then ascii ''0.75'' else ascii ''1'')"

text \<open>The host after a renderer has left the page as \<open>p\<close>.\<close>

definition rendered :: "node \<Rightarrow> world \<Rightarrow> world" where
  "rendered p w = w\<lparr>page := p, log := log w @ [Rendered p]\<rparr>"

text \<open>
  What the context-menu and shortcut handlers hand to the renderer once the request has
  settled with \<open>r\<close>: the summary, the placeholder, or the error string.
\<close>

definition settled_text :: "js_error + jsval \<Rightarrow> jsval" where
  "settled_text r =
     (case r of
        Inl err \<Rightarrow> error_text err
      | Inr result \<Rightarrow>
          (case get_summary result of
             Inl err \<Rightarrow> error_text err
           | Inr s \<Rightarrow> or_else s (JStr no_summary_returned)))"


subsection \<open>Network traffic of a call\<close>

text \<open>
  \<open>carries url b ev\<close>: the event is a wait, or a request to \<open>url\<close> with body \<open>b\<close>.
  \<open>net_step url b w w'\<close>: from \<open>w\<close> to \<open>w'\<close> only such events were logged and nothing
  else of the host has changed.
\<close>

definition carries :: "jsstring \<Rightarrow> request \<Rightarrow> event \<Rightarrow> bool" where
  "carries url b ev =
     (case ev of Fetched u rq \<Rightarrow> u = url \<and> rq = b | Slept d \<Rightarrow> True | _ \<Rightarrow> False)"

definition net_step :: "jsstring \<Rightarrow> request \<Rightarrow> world \<Rightarrow> world \<Rightarrow> bool" where
  "net_step url b w w' \<longleftrightarrow>
     (\<exists>n net. w' = w\<lparr>fetches := n, log := log w @ net\<rparr> \<and> list_all (carries url b) net)"

definition summarize_url :: "config \<Rightarrow> jsstring" where
  "summarize_url cfg = API_BASE cfg @ ascii ''/summarize''"

text \<open>The request body the context-menu and shortcut handlers build from the preferences.\<close>

definition handler_request :: "jsstring \<Rightarrow> world \<Rightarrow> request" where
  "handler_request selectedText w =
     \<lparr>req_text = JStr selectedText,
      req_tone = or_else (stored_tone w) (JStr (ascii ''precise'')),
      req_maxSentences = JNum (clampMaxSentences (stored_maxSentences w))\<rparr>"

text \<open>The \<open>maxSentences\<close> fields of the requests in a log, in order.\<close>

definition sent_maxSentences :: "event list \<Rightarrow> jsval list" where
  "sent_maxSentences evs =
     concat (map (\<lambda>ev. case ev of Fetched u rq \<Rightarrow> [req_maxSentences rq] | _ \<Rightarrow> []) evs)"


subsection \<open>Escaping, as the specification words it\<close>


subsection \<open>Sample runs\<close>

text \<open>
  A host for concrete runs: an empty page that accepts injection, no stored
  preferences, a server that always answers the same.  \<open>sample_JSON_parse\<close> is
  \<open>JSON.parse\<close> on the bodies the sample servers send.
\<close>

definition sample_JSON_parse :: "jsstring \<Rightarrow> jsval option" where
  \<open>sample_JSON_parse =
     map_of
       [(ascii ''{"summary":"X"}'', JObj [(ascii ''summary'', JStr (ascii ''X''))]),
        (ascii ''{"summary":""}'', JObj [(ascii ''summary'', JStr [])]),
        (ascii ''{}'', JObj []),
        (ascii ''null'', JNull)]\<close>

definition always :: "nat \<Rightarrow> jsstring \<Rightarrow> nat \<Rightarrow> fetch_result" where
  "always st b i = Responded \<lparr>status = st, body = b\<rparr>"

definition empty_page :: node where
  "empty_page = Element (ascii ''body'') [] [] []"

definition sample_world :: "(nat \<Rightarrow> fetch_result) \<Rightarrow> world" where
  "sample_world srv =
     \<lparr>server = srv, fetches = 0, log = [],
      JSON_parse = sample_JSON_parse,
      stored_tone = JUndefined, stored_maxSentences = JUndefined,
      injection = None, selection = ascii ''some text'', page = empty_page\<rparr>"

definition sample_request :: request where
  "sample_request =
     \<lparr>req_text = JStr (ascii ''some text''), req_tone = JStr (ascii ''precise''),
      req_maxSentences = JNum (Num 3)\<rparr>"

text \<open>The sample host on a page where the host refuses injection.\<close>

definition restricted_world :: world where
  "restricted_world =
     (sample_world (always 200 (ascii ''{}'')))
       \<lparr>injection := Some (Error (ascii ''Cannot access a chrome:// URL''))\<rparr>"

text \<open>The sample host with a selection of blanks, and with a server that returns a summary.\<close>

definition unselected_world :: world where
  "unselected_world = (sample_world (always 200 (ascii ''{}'')))\<lparr>selection := ascii ''  ''\<rparr>"

definition sample_world_X :: world where
  \<open>sample_world_X = sample_world (always 200 (ascii ''{"summary":"X"}''))\<close>

text \<open>
  The sample host with a server that returns an object without a summary, with one
  that returns \<open>null\<close>, and with one that is rate limiting; a popup with its form filled
  in.
\<close>

definition sample_world_empty :: world where
  "sample_world_empty = sample_world (always 200 (ascii ''{}''))"



definition sample_popup :: popup where
  "sample_popup =
     \<lparr>toneEl_value = ascii ''precise'', maxEl_value = ascii ''3'', statusEl_text = [],
      outEl = Out_text []\<rparr>"

section \<open>Properties of the HTTP helper and the request builder\<close>

lemma trim_blank: "\<forall>c \<in> set s. is_ws c \<Longrightarrow> trim s = []"
proof -
  assume "\<forall>c \<in> set s. is_ws c"
  then have "dropWhile is_ws s = []" by simp
  then show ?thesis by (simp only: trim_def rev.simps dropWhile.simps)
qed


lemma rate_limited_not_ok: "status r = 429 \<Longrightarrow> \<not> res_ok r"
  by (simp add: res_ok_def)

lemma backoff_log_Suc:
  "backoff_log url b d (Suc k) = [Fetched url b, Slept d] @ backoff_log url b (d * 2) k"
proof -
  have "[0..<Suc k] = 0 # map Suc [0..<k]"
    by (simp add: upt_conv_Cons map_Suc_upt del: upt_Suc)
  then show ?thesis
    by (simp add: backoff_log_def comp_def mult.assoc del: upt_Suc)
qed

lemma loop_retry_step:
  assumes "rate_limited (server w (fetches w))" "attempt < MAX_RETRIES"
  shows "postJSON_loop url b attempt delay w =
         postJSON_loop url b (attempt + 1) (delay * 2) (retried url b delay 1 w)"
proof -
  from assms(1) obtain r where r: "server w (fetches w) = Responded r" "status r = 429"
    by (auto simp: rate_limited_def split: fetch_result.splits)
  show ?thesis
    using r assms(2) rate_limited_not_ok[OF r(2)]
    by (subst postJSON_loop.simps)
       (simp add: fetch_def sleep_def retried_def backoff_log_def)
qed

lemma loop_retries:
  assumes "\<forall>i<k. rate_limited (server w (fetches w + i))" "attempt + k \<le> MAX_RETRIES"
  shows "postJSON_loop url b attempt delay w =
         postJSON_loop url b (attempt + k) (delay * 2 ^ k) (retried url b delay k w)"
  using assms
proof (induction k arbitrary: attempt delay w)
  case 0
  then show ?case by (simp add: retried_def backoff_log_def)
next
  case (Suc k)
  let ?w1 = "retried url b delay 1 w"
  have first: "rate_limited (server w (fetches w))" using Suc.prems(1) by force
  have lt: "attempt < MAX_RETRIES" using Suc.prems(2) by simp
  have rest: "\<forall>i<k. rate_limited (server ?w1 (fetches ?w1 + i))"
    using Suc.prems(1) by (auto simp: retried_def)
  have "postJSON_loop url b attempt delay w = postJSON_loop url b (attempt + 1) (delay * 2) ?w1"
    by (rule loop_retry_step[OF first lt])
  also have "\<dots> = postJSON_loop url b (attempt + 1 + k) (delay * 2 * 2 ^ k) (retried url b (delay * 2) k ?w1)"
    using Suc.IH[OF rest] Suc.prems(2) by simp
  also have "retried url b (delay * 2) k ?w1 = retried url b delay (Suc k) w"
    by (simp add: retried_def backoff_log_Suc) (simp add: backoff_log_def)
  finally show ?case by (simp add: mult.assoc)
qed

lemma loop_ok:
  assumes "server w (fetches w) = Responded r" "res_ok r"
  shows "postJSON_loop url b attempt delay w =
         ((case JSON_parse w (body r) of Some v \<Rightarrow> Inr v | None \<Rightarrow> Inl (invalid_json (body r))),
          w\<lparr>fetches := Suc (fetches w), log := log w @ [Fetched url b]\<rparr>)"
  using assms by (subst postJSON_loop.simps) (simp add: fetch_def split: option.splits)

lemma loop_fail:
  assumes "server w (fetches w) = Responded r" "\<not> res_ok r" "status r = 429 \<longrightarrow> MAX_RETRIES \<le> attempt"
  shows "postJSON_loop url b attempt delay w =
         (Inl (http_error r), w\<lparr>fetches := Suc (fetches w), log := log w @ [Fetched url b]\<rparr>)"
  using assms by (subst postJSON_loop.simps) (auto simp add: fetch_def)

lemma loop_rejected:
  assumes "server w (fetches w) = Rejected e"
  shows "postJSON_loop url b attempt delay w =
         (Inl e, w\<lparr>fetches := Suc (fetches w), log := log w @ [Fetched url b]\<rparr>)"
  using assms by (subst postJSON_loop.simps) (auto simp add: fetch_def)


lemma show_nat_429: "show_nat 429 = ascii ''429''"
  by code_simp

lemma show_nat_500: "show_nat 500 = ascii ''500''"
  by code_simp

text \<open>
  Claim C2.  Whatever the worker and its base delay: when the first \<open>k \<le> 3\<close> requests of a
  call are answered with 429 and the next one with a status outside 200..299 that is not
  429, or is 429 with all 3 retries used up (\<open>k = 3\<close>), \<open>postJSON\<close> throws the error whose
  message is \<open>HTTP <status>: <body>\<close> (\<open>Request failed\<close> for an empty body).  It has
  then sent exactly \<open>k + 1\<close> requests, and before each of the \<open>k\<close> retries it has waited:
  the base delay first, twice the previous wait after that.  With \<open>k = 0\<close> this is the
  immediate failure, without wait or retry, on any other status.
\<close>

theorem postJSON_non_2xx:
  assumes "k \<le> 3"
    and "\<forall>i<k. rate_limited (server w (fetches w + i))"
    and "server w (fetches w + k) = Responded r"
    and "\<not> res_ok r"
    and "status r = 429 \<longrightarrow> k = 3"
  shows "postJSON cfg path b w =
           (Inl (Error (ascii ''HTTP '' @ show_nat (status r) @ ascii '': '' @
                        (if body r = [] then ascii ''Request failed'' else body r))),
            w\<lparr>fetches := fetches w + k + 1,
              log := log w @ backoff_log (API_BASE cfg @ path) b (RETRY_BASE_DELAY_MS cfg) k @
                     [Fetched (API_BASE cfg @ path) b]\<rparr>)"
proof -
  let ?url = "API_BASE cfg @ path" and ?d = "RETRY_BASE_DELAY_MS cfg"
  let ?w = "retried ?url b ?d k w"
  have "postJSON cfg path b w = postJSON_loop ?url b (0 + k) (?d * 2 ^ k) ?w"
    unfolding postJSON_def using assms(1,2) by (intro loop_retries) (simp_all add: MAX_RETRIES_def)
  also have "\<dots> = (Inl (http_error r), ?w\<lparr>fetches := Suc (fetches ?w), log := log ?w @ [Fetched ?url b]\<rparr>)"
    using assms(3,4,5) by (intro loop_fail) (simp_all add: retried_def MAX_RETRIES_def)
  finally show ?thesis
    by (simp add: retried_def http_error_def)
qed

lemma backoff_log_3:
  "backoff_log u q d 3 = [Fetched u q, Slept d, Fetched u q, Slept (d * 2), Fetched u q, Slept (d * 4)]"
  by (simp add: backoff_log_def upt_rec numeral_eq_Suc)

lemma backoff_log_0: "backoff_log u q d 0 = []"
  by (simp add: backoff_log_def)

lemma sample_world_sel:
  "server (sample_world srv) = srv" "fetches (sample_world srv) = 0" "log (sample_world srv) = []"
  "JSON_parse (sample_world srv) = sample_JSON_parse" "injection (sample_world srv) = None"
  "stored_tone (sample_world srv) = JUndefined" "stored_maxSentences (sample_world srv) = JUndefined"
  "selection (sample_world srv) = ascii ''some text''" "page (sample_world srv) = empty_page"
  by (simp_all add: sample_world_def)

theorem postJSON_non_2xx_witness:
  "rate_limited (server (sample_world (always 429 (ascii ''slow down''))) 0)
   \<and> rate_limited (server (sample_world (always 429 (ascii ''slow down''))) 1)
   \<and> rate_limited (server (sample_world (always 429 (ascii ''slow down''))) 2)
   \<and> \<not> res_ok \<lparr>status = 429, body = ascii ''slow down''\<rparr>
   \<and> postJSON ngrok_config (ascii ''/summarize'') sample_request
        (sample_world (always 429 (ascii ''slow down''))) =
       (Inl (Error (ascii ''HTTP 429: slow down'')),
        (sample_world (always 429 (ascii ''slow down'')))
          \<lparr>fetches := 4,
           log := [Fetched (API_BASE ngrok_config @ ascii ''/summarize'') sample_request, Slept 500,
                   Fetched (API_BASE ngrok_config @ ascii ''/summarize'') sample_request, Slept 1000,
                   Fetched (API_BASE ngrok_config @ ascii ''/summarize'') sample_request, Slept 2000,
                   Fetched (API_BASE ngrok_config @ ascii ''/summarize'') sample_request]\<rparr>)
   \<and> log (snd (postJSON onrender_config (ascii ''/summarize'') sample_request
                (sample_world (always 429 (ascii ''slow down''))))) =
       [Fetched (API_BASE onrender_config @ ascii ''/summarize'') sample_request, Slept 600,
        Fetched (API_BASE onrender_config @ ascii ''/summarize'') sample_request, Slept 1200,
        Fetched (API_BASE onrender_config @ ascii ''/summarize'') sample_request, Slept 2400,
        Fetched (API_BASE onrender_config @ ascii ''/summarize'') sample_request]
   \<and> \<not> res_ok \<lparr>status = 500, body = []\<rparr>
   \<and> postJSON onrender_config (ascii ''/summarize'') sample_request (sample_world (always 500 [])) =
       (Inl (Error (ascii ''HTTP 500: Request failed'')),
        (sample_world (always 500 []))
          \<lparr>fetches := 1,
           log := [Fetched (API_BASE onrender_config @ ascii ''/summarize'') sample_request]\<rparr>)"
proof -
  let ?w = "sample_world (always 429 (ascii ''slow down''))"
  let ?r = "\<lparr>status = 429, body = ascii ''slow down''\<rparr>"
  let ?v = "sample_world (always 500 [])"
  let ?s = "\<lparr>status = 500, body = []\<rparr> :: response"
  have a: "(3::nat) \<le> 3" by simp
  have b: "\<forall>i<3. rate_limited (server ?w (fetches ?w + i))"
    by (simp add: sample_world_sel always_def rate_limited_def)
  have c: "server ?w (fetches ?w + 3) = Responded ?r" by (simp add: sample_world_sel always_def)
  have d: "\<not> res_ok ?r" by (simp add: res_ok_def)
  have e: "status ?r = 429 \<longrightarrow> (3::nat) = 3" by simp
  have a': "(0::nat) \<le> 3" by simp
  have b': "\<forall>i<0. rate_limited (server ?v (fetches ?v + i))" by simp
  have c': "server ?v (fetches ?v + 0) = Responded ?s" by (simp add: sample_world_sel always_def)
  have d': "\<not> res_ok ?s" by (simp add: res_ok_def)
  have e': "status ?s = 429 \<longrightarrow> (0::nat) = 3" by simp
  have nonempty: "ascii ''slow down'' \<noteq> []" by (simp add: ascii_def)
  have msg1: "ascii ''HTTP '' @ ascii ''429'' @ ascii '': '' @ ascii ''slow down'' = ascii ''HTTP 429: slow down''"
    by (simp add: ascii_def)
  have msg2: "ascii ''HTTP '' @ ascii ''500'' @ ascii '': '' @ ascii ''Request failed'' = ascii ''HTTP 500: Request failed''"
    by (simp add: ascii_def)
  have r1: "postJSON ngrok_config (ascii ''/summarize'') sample_request ?w =
       (Inl (Error (ascii ''HTTP 429: slow down'')),
        ?w\<lparr>fetches := 4,
           log := [Fetched (API_BASE ngrok_config @ ascii ''/summarize'') sample_request, Slept 500,
                   Fetched (API_BASE ngrok_config @ ascii ''/summarize'') sample_request, Slept 1000,
                   Fetched (API_BASE ngrok_config @ ascii ''/summarize'') sample_request, Slept 2000,
                   Fetched (API_BASE ngrok_config @ ascii ''/summarize'') sample_request]\<rparr>)"
    using postJSON_non_2xx[OF a b c d e, of ngrok_config "ascii ''/summarize''" sample_request]
    by (simp add: show_nat_429 nonempty msg1 backoff_log_3 sample_world_sel)
       (simp add: ngrok_config_def)
  have r2: "postJSON onrender_config (ascii ''/summarize'') sample_request ?v =
       (Inl (Error (ascii ''HTTP 500: Request failed'')),
        ?v\<lparr>fetches := 1,
           log := [Fetched (API_BASE onrender_config @ ascii ''/summarize'') sample_request]\<rparr>)"
    using postJSON_non_2xx[OF a' b' c' d' e', of onrender_config "ascii ''/summarize''" sample_request]
    by (simp add: show_nat_500 msg2 backoff_log_0 sample_world_sel)
  have r3: "log (snd (postJSON onrender_config (ascii ''/summarize'') sample_request ?w)) =
       [Fetched (API_BASE onrender_config @ ascii ''/summarize'') sample_request, Slept 600,
        Fetched (API_BASE onrender_config @ ascii ''/summarize'') sample_request, Slept 1200,
        Fetched (API_BASE onrender_config @ ascii ''/summarize'') sample_request, Slept 2400,
        Fetched (API_BASE onrender_config @ ascii ''/summarize'') sample_request]"
    using postJSON_non_2xx[OF a b c d e, of onrender_config "ascii ''/summarize''" sample_request]
    by (simp add: backoff_log_3 sample_world_sel) (simp add: onrender_config_def)
  have b0: "rate_limited (server ?w 0)" "rate_limited (server ?w 1)" "rate_limited (server ?w 2)"
    by (simp_all add: sample_world_sel always_def rate_limited_def)
  from b0 d r1 r3 d' r2 show ?thesis by blast
qed

text \<open>
  Claim C3.  For a text that is empty or made of white space only, \<open>summarize\<close> throws
  the error \<open>No text provided to summarize.\<close> and leaves the host as it was: nothing is
  fetched, nothing is logged.
\<close>

theorem summarize_blank_text:
  assumes "\<forall>c \<in> set s. is_ws c"
  shows "summarize cfg (JStr s) tone maxSentences w =
           (Inl (Error (ascii ''No text provided to summarize.'')), w)"
  using assms by (simp add: summarize_def trim_blank no_text_provided_def)

theorem summarize_blank_text_witness:
  "list_all is_ws (ascii ''   '')
   \<and> summarize onrender_config (JStr (ascii ''   '')) (JStr (ascii ''precise'')) (JNum (Num 3))
        (sample_world (always 200 (ascii ''{}''))) =
       (Inl (Error (ascii ''No text provided to summarize.'')), sample_world (always 200 (ascii ''{}'')))
   \<and> summarize ngrok_config (JStr []) JUndefined JUndefined (sample_world (always 200 (ascii ''{}''))) =
       (Inl (Error (ascii ''No text provided to summarize.'')), sample_world (always 200 (ascii ''{}'')))"
proof -
  have a: "\<forall>c \<in> set (ascii ''   ''). is_ws c" by (simp add: ascii_def is_ws_def)
  have b: "\<forall>c \<in> set ([] :: jsstring). is_ws c" by simp
  have c: "list_all is_ws (ascii ''   '')" using a by (simp add: list_all_iff)
  from c summarize_blank_text[OF a] summarize_blank_text[OF b] show ?thesis by blast
qed

text \<open>
  Claim C8.  When a call of \<open>postJSON\<close> gets a response with a status in 200..299, at
  once or after up to 3 rate-limited attempts, it returns what \<open>JSON.parse\<close> makes of
  the body, unchanged; where \<open>JSON.parse\<close> throws, it throws an error whose message
  is \<open>Invalid JSON from backend: \<close> followed by the raw body.
\<close>

theorem postJSON_2xx:
  assumes "k \<le> 3"
    and "\<forall>i<k. rate_limited (server w (fetches w + i))"
    and "server w (fetches w + k) = Responded r"
    and "res_ok r"
  shows "fst (postJSON cfg path b w) =
           (case JSON_parse w (body r) of
              Some v \<Rightarrow> Inr v
            | None \<Rightarrow> Inl (Error (ascii ''Invalid JSON from backend: '' @ body r)))"
proof -
  let ?url = "API_BASE cfg @ path" and ?d = "RETRY_BASE_DELAY_MS cfg"
  let ?w = "retried ?url b ?d k w"
  have "postJSON cfg path b w = postJSON_loop ?url b (0 + k) (?d * 2 ^ k) ?w"
    unfolding postJSON_def using assms(1,2) by (intro loop_retries) (simp_all add: MAX_RETRIES_def)
  also have "\<dots> = ((case JSON_parse ?w (body r) of Some v \<Rightarrow> Inr v | None \<Rightarrow> Inl (invalid_json (body r))),
          ?w\<lparr>fetches := Suc (fetches ?w), log := log ?w @ [Fetched ?url b]\<rparr>)"
    using assms(3,4) by (intro loop_ok) (simp_all add: retried_def)
  finally show ?thesis
    by (simp add: retried_def invalid_json_def split: option.split)
qed

lemma sample_parse_X:
  \<open>sample_JSON_parse (ascii ''{"summary":"X"}'') = Some (JObj [(ascii ''summary'', JStr (ascii ''X''))])\<close>
  by (simp add: sample_JSON_parse_def)

lemma sample_parse_oops: "sample_JSON_parse (ascii ''<html>oops</html>'') = None"
  by (simp add: sample_JSON_parse_def ascii_def)

theorem postJSON_2xx_witness:
  \<open>res_ok \<lparr>status = 200, body = ascii ''<html>oops</html>''\<rparr>
   \<and> fst (postJSON onrender_config (ascii ''/summarize'') sample_request
             (sample_world (always 200 (ascii ''<html>oops</html>'')))) =
       Inl (Error (ascii ''Invalid JSON from backend: <html>oops</html>''))
   \<and> res_ok \<lparr>status = 200, body = ascii ''{"summary":"X"}''\<rparr>
   \<and> fst (postJSON onrender_config (ascii ''/summarize'') sample_request
             (sample_world (always 200 (ascii ''{"summary":"X"}'')))) =
       Inr (JObj [(ascii ''summary'', JStr (ascii ''X''))])\<close>
proof -
  let ?w = "sample_world (always 200 (ascii ''<html>oops</html>''))"
  let ?r = "\<lparr>status = 200, body = ascii ''<html>oops</html>''\<rparr>"
  let ?v = \<open>sample_world (always 200 (ascii ''{"summary":"X"}''))\<close>
  let ?s = \<open>\<lparr>status = 200, body = ascii ''{"summary":"X"}''\<rparr>\<close>
  have a: "(0::nat) \<le> 3" by simp
  have b: "\<forall>i<0. rate_limited (server ?w (fetches ?w + i))" by simp
  have c: "server ?w (fetches ?w + 0) = Responded ?r" by (simp add: sample_world_sel always_def)
  have d: "res_ok ?r" by (simp add: res_ok_def)
  have b': "\<forall>i<0. rate_limited (server ?v (fetches ?v + i))" by simp
  have c': "server ?v (fetches ?v + 0) = Responded ?s" by (simp add: sample_world_sel always_def)
  have d': "res_ok ?s" by (simp add: res_ok_def)
  have msg: "ascii ''Invalid JSON from backend: '' @ ascii ''<html>oops</html>'' =
             ascii ''Invalid JSON from backend: <html>oops</html>''"
    by (simp add: ascii_def)
  have r1: "fst (postJSON onrender_config (ascii ''/summarize'') sample_request ?w) =
       Inl (Error (ascii ''Invalid JSON from backend: <html>oops</html>''))"
    using postJSON_2xx[OF a b c d, of onrender_config "ascii ''/summarize''" sample_request]
    by (simp add: sample_world_sel sample_parse_oops msg)
  have r2: "fst (postJSON onrender_config (ascii ''/summarize'') sample_request ?v) =
       Inr (JObj [(ascii ''summary'', JStr (ascii ''X''))])"
    using postJSON_2xx[OF a b' c' d', of onrender_config "ascii ''/summarize''" sample_request]
    by (simp add: sample_world_sel sample_parse_X)
  from d r1 d' r2 show ?thesis by blast
qed

section \<open>Properties of the renderers\<close>

lemma find_id_absent:
  "count_id i nd = 0 \<Longrightarrow> find_id i nd = None"
  "(\<forall>k \<in> set ks. count_id i k = 0) \<Longrightarrow> find_id_list i ks n = None"
  by (induction i nd and i ks n rule: find_id_find_id_list.induct) (auto split: if_splits)

lemma find_id_list_append:
  "(\<forall>k \<in> set ks. count_id i k = 0) \<Longrightarrow>
   find_id_list i (ks @ [c]) n = map_option (\<lambda>p. (n + length ks) # p) (find_id i c)"
proof (induction ks arbitrary: n)
  case Nil
  then show ?case by (cases "find_id i c") simp_all
next
  case (Cons k ks)
  then show ?case by (simp add: find_id_absent(1))
qed

lemma ids_distinct:
  "bubble_id \<noteq> bubble_body_id" "bubble_body_id \<noteq> bubble_id"
  "bubble_id \<noteq> []" "bubble_body_id \<noteq> []" "[] \<noteq> bubble_id" "[] \<noteq> bubble_body_id"
  by (simp_all add: bubble_id_def bubble_body_id_def ascii_def)

lemma find_in_header: "find_id bubble_id bubble_header = None" "find_id bubble_body_id bubble_header = None"
  using ids_distinct by (simp_all add: bubble_header_def)

lemma find_in_bubble:
  "find_id bubble_id (bubble t op) = Some []"
  "find_id bubble_body_id (bubble t op) = Some [Suc 0]"
  using ids_distinct by (simp_all add: bubble_def find_in_header)

lemma new_bubble_eq: "new_bubble = bubble [] []"
  by (simp add: new_bubble_def bubble_def)

lemma update_last:
  "update_at (length ks # p) f (Element tg j op (ks @ [c])) = Element tg j op (ks @ [update_at p f c])"
  by simp

lemma bubble_set_text:
  "update_at [Suc 0] (set_textContent t') (bubble t op) = bubble t' op"
  by (simp add: bubble_def text_kids_def)

lemma bubble_set_opacity:
  "update_at [] (set_opacity v) (bubble t op) = bubble t v"
  by (simp add: bubble_def)

lemma free_cases:
  assumes "bubble_free doc"
  obtains tg j op ks where "doc = Element tg j op ks" "j \<noteq> bubble_id" "j \<noteq> bubble_body_id"
    "\<forall>k \<in> set ks. count_id bubble_id k = 0" "\<forall>k \<in> set ks. count_id bubble_body_id k = 0"
proof -
  from assms obtain tg j op ks where doc: "doc = Element tg j op ks"
    by (cases doc) (auto simp: bubble_free_def)
  with assms have "j \<noteq> bubble_id" "j \<noteq> bubble_body_id"
    "\<forall>k \<in> set ks. count_id bubble_id k = 0" "\<forall>k \<in> set ks. count_id bubble_body_id k = 0"
    by (auto simp: bubble_free_def split: if_splits)
  with doc that show thesis by blast
qed

lemma find_free:
  assumes "bubble_free doc"
  shows "find_id bubble_id doc = None" "find_id bubble_body_id doc = None"
  using assms by (auto elim!: free_cases simp: find_id_absent(2))

lemma find_with:
  assumes "bubble_free doc"
  shows "find_id bubble_id (with_bubble t op doc) = Some [child_count doc]"
    and "find_id bubble_body_id (with_bubble t op doc) = Some [child_count doc, Suc 0]"
  using assms
  by (auto elim!: free_cases simp: with_bubble_def find_id_list_append find_in_bubble)

lemma upd_text:
  assumes "bubble_free doc"
  shows "update_at [child_count doc, Suc 0] (set_textContent t') (with_bubble t op doc) = with_bubble t' op doc"
  using assms
  by (auto elim!: free_cases simp: with_bubble_def bubble_set_text simp del: update_at.simps simp add: update_last)

lemma upd_opacity:
  assumes "bubble_free doc"
  shows "update_at [child_count doc] (set_opacity v) (with_bubble t op doc) = with_bubble t v doc"
  using assms
  by (auto elim!: free_cases simp: with_bubble_def bubble_set_opacity simp del: update_at.simps simp add: update_last)

lemma appendChild_overlay: "appendChild c doc = with_overlay c doc"
  by (cases doc) simp_all

lemma append_new_bubble: "appendChild new_bubble doc = with_bubble [] [] doc"
  by (simp add: with_bubble_def new_bubble_eq appendChild_overlay)

lemma upsert_on_free:
  assumes "bubble_free doc"
  shows "upsertSummaryBubble v l doc = with_bubble (dom_text v) (opacity_for l) doc"
  by (simp add: upsertSummaryBubble_def find_free[OF assms] append_new_bubble
        find_with[OF assms] upd_text[OF assms] upd_opacity[OF assms] opacity_for_def)

lemma upsert_on_bubble:
  assumes "bubble_free doc"
  shows "upsertSummaryBubble v l (with_bubble t op0 doc) = with_bubble (dom_text v) (opacity_for l) doc"
  by (simp add: upsertSummaryBubble_def find_with[OF assms] upd_text[OF assms]
        upd_opacity[OF assms] opacity_for_def)

lemma count_with_bubble:
  assumes "bubble_free doc"
  shows "count_id bubble_id (with_bubble t op doc) = 1"
proof -
  from assms obtain tg j op' ks where doc: "doc = Element tg j op' ks"
    by (cases doc) (auto simp: bubble_free_def)
  have "count_id bubble_id (bubble t op) = 1"
    using ids_distinct by (simp add: bubble_def bubble_header_def)
  with assms show ?thesis
    by (simp add: doc with_bubble_def bubble_free_def split: if_splits)
qed

text \<open>Reading the overlay's body back through \<open>getElementById\<close> gives the text.\<close>

lemma with_bubble_shows:
  assumes "bubble_free doc"
  shows "(case find_id bubble_body_id (with_bubble t op doc) of
            Some q \<Rightarrow> map_option textContent (node_at q (with_bubble t op doc))
          | None \<Rightarrow> None) = Some t"
proof -
  from assms obtain tg j op' ks where doc: "doc = Element tg j op' ks"
    by (cases doc) (auto simp: bubble_free_def)
  have "node_at [child_count doc, Suc 0] (with_bubble t op doc) =
        Some (Element div_tag bubble_body_id [] (if t = [] then [] else [TextNode t]))"
    by (simp add: doc with_bubble_def bubble_def nth_append)
  moreover have "textContent (Element div_tag bubble_body_id []
                   (if t = [] then [] else [TextNode t])) = t"
    by simp
  ultimately show ?thesis by (simp add: find_with(2)[OF assms])
qed

section \<open>Network traffic and what it leaves alone\<close>

lemma net_step_refl: "net_step url b w w"
  unfolding net_step_def by (rule exI[of _ "fetches w"], rule exI[of _ "[]"]) simp

lemma net_step_trans: "net_step url b w w1 \<Longrightarrow> net_step url b w1 w2 \<Longrightarrow> net_step url b w w2"
  unfolding net_step_def
proof (elim exE conjE)
  fix n net n' net'
  assume a: "w1 = w\<lparr>fetches := n, log := log w @ net\<rparr>" "list_all (carries url b) net"
    and b: "w2 = w1\<lparr>fetches := n', log := log w1 @ net'\<rparr>" "list_all (carries url b) net'"
  have "w2 = w\<lparr>fetches := n', log := log w @ (net @ net')\<rparr>" using a(1) b(1) by simp
  moreover have "list_all (carries url b) (net @ net')" using a(2) b(2) by simp
  ultimately show "\<exists>n net. w2 = w\<lparr>fetches := n, log := log w @ net\<rparr> \<and> list_all (carries url b) net"
    by blast
qed

lemma net_step_fetch: "net_step url b w (snd (fetch url b w))"
  unfolding net_step_def fetch_def
  by (rule exI[of _ "Suc (fetches w)"], rule exI[of _ "[Fetched url b]"]) (simp add: carries_def)

lemma net_step_sleep: "net_step url b w (sleep d w)"
  unfolding net_step_def sleep_def
  by (rule exI[of _ "fetches w"], rule exI[of _ "[Slept d]"]) (simp add: carries_def)

lemma loop_net_step: "net_step url b w (snd (postJSON_loop url b attempt delay w))"
proof (induction url b attempt delay w rule: postJSON_loop.induct)
  case (1 url b attempt delay w)
  obtain x w1 where f: "fetch url b w = (x, w1)" by (cases "fetch url b w")
  have s1: "net_step url b w w1" using net_step_fetch[of url b w] f by simp
  show ?case
  proof (cases x)
    case (Rejected e)
    then show ?thesis using f s1 by (subst postJSON_loop.simps) simp
  next
    case (Responded res)
    show ?thesis
    proof (cases "\<not> res_ok res \<and> status res = 429 \<and> attempt < MAX_RETRIES")
      case True
      then have "net_step url b (sleep delay w1) (snd (postJSON_loop url b (attempt + 1) (delay * 2) (sleep delay w1)))"
        using "1.IH"[OF f[symmetric] Responded] by simp
      then have "net_step url b w (snd (postJSON_loop url b (attempt + 1) (delay * 2) (sleep delay w1)))"
        using s1 net_step_sleep net_step_trans by blast
      then show ?thesis using True f Responded by (subst postJSON_loop.simps) simp
    next
      case False
      then show ?thesis using f Responded s1
        by (subst postJSON_loop.simps) (auto split: option.splits)
    qed
  qed
qed

lemma summarize_net_step:
  "net_step (summarize_url cfg)
     \<lparr>req_text = txt, req_tone = dflt (JStr (ascii ''precise'')) tone,
      req_maxSentences = dflt (JNum (Num 3)) maxSentences\<rparr>
     w (snd (summarize cfg txt tone maxSentences w))"
  by (auto simp: summarize_def postJSON_def summarize_url_def net_step_refl loop_net_step
           split: jsval.splits)

lemma net_step_frame:
  assumes "net_step url b w w'"
  shows "page w' = page w" "injection w' = injection w" "stored_tone w' = stored_tone w"
    "stored_maxSentences w' = stored_maxSentences w" "selection w' = selection w"
    "JSON_parse w' = JSON_parse w"
    "server w' = server w"
  using assms by (auto simp: net_step_def)

lemma net_step_log:
  assumes "net_step url b w w'"
  shows "\<exists>net. log w' = log w @ net \<and> list_all (carries url b) net"
  using assms by (auto simp: net_step_def)

section \<open>The handlers on a page that accepts injection\<close>

lemma bubble_page_upsert:
  assumes "bubble_page doc p"
  shows "upsertSummaryBubble v l p = with_bubble (dom_text v) (opacity_for l) doc"
  using assms by (auto simp: bubble_page_def upsert_on_free upsert_on_bubble)

lemma bubble_page_with: "bubble_free doc \<Longrightarrow> bubble_page doc (with_bubble t op doc)"
  by (auto simp: bubble_page_def)

lemma showBubble_ok:
  assumes "injection w = None" "bubble_page doc (page w)"
  shows "showBubble v l w = (Inr (), rendered (with_bubble (dom_text v) (opacity_for l) doc) w)"
  using assms by (simp add: showBubble_def executeScript_def rendered_def bubble_page_upsert)

lemma rendered_sel:
  "page (rendered p w) = p" "injection (rendered p w) = injection w"
  "stored_tone (rendered p w) = stored_tone w" "stored_maxSentences (rendered p w) = stored_maxSentences w"
  "log (rendered p w) = log w @ [Rendered p]" "selection (rendered p w) = selection w"
  "server (rendered p w) = server w" "fetches (rendered p w) = fetches w"
  "JSON_parse (rendered p w) = JSON_parse w"
  by (simp_all add: rendered_def)

lemma dflt_or_else: "dflt d (or_else a (JStr (ascii ''precise''))) = or_else a (JStr (ascii ''precise''))"
  by (auto simp: dflt_def or_else_def)

lemma dflt_num: "dflt d (JNum x) = JNum x"
  by (simp add: dflt_def)

lemma handle_ok:
  assumes inj: "injection w = None" and pg: "bubble_page doc (page w)"
  shows "handleSummarizeInTab cfg sel w =
           (let w1 = rendered (with_bubble loading_text (ascii ''0.75'') doc) w;
                (r, w2) = summarize cfg (JStr sel) (req_tone (handler_request sel w))
                            (req_maxSentences (handler_request sel w)) w1
            in (Inr (), rendered (with_bubble (dom_text (settled_text r)) (ascii ''1'') doc) w2))"
proof -
  let ?w1 = "rendered (with_bubble loading_text (ascii ''0.75'') doc) w"
  let ?tone = "req_tone (handler_request sel w)" and ?ms = "req_maxSentences (handler_request sel w)"
  obtain r w2 where s: "summarize cfg (JStr sel) ?tone ?ms ?w1 = (r, w2)"
    by (cases "summarize cfg (JStr sel) ?tone ?ms ?w1")
  have free: "bubble_free doc" using pg by (simp add: bubble_page_def)
  have ns: "net_step (summarize_url cfg)
     \<lparr>req_text = JStr sel, req_tone = dflt (JStr (ascii ''precise'')) ?tone,
      req_maxSentences = dflt (JNum (Num 3)) ?ms\<rparr> ?w1 w2"
    using summarize_net_step[of cfg "JStr sel" ?tone ?ms ?w1] s by simp
  have inj2: "injection w2 = None" using net_step_frame(2)[OF ns] inj by (simp add: rendered_sel)
  have pg2: "bubble_page doc (page w2)"
    using net_step_frame(1)[OF ns] free by (simp add: rendered_sel bubble_page_with)
  have first: "showBubble (JStr loading_text) True w = (Inr (), ?w1)"
    using showBubble_ok[OF inj pg, of "JStr loading_text" True]
    by (simp add: dom_text_def opacity_for_def)
  have last: "showBubble v False w2 = (Inr (), rendered (with_bubble (dom_text v) (ascii ''1'') doc) w2)" for v
    using showBubble_ok[OF inj2 pg2, of v False] by (simp add: opacity_for_def)
  have s': "summarize cfg (JStr sel) (or_else (stored_tone w) (JStr (ascii ''precise'')))
              (JNum (clampMaxSentences (stored_maxSentences w))) ?w1 = (r, w2)"
    using s by (simp add: handler_request_def)
  show ?thesis
    unfolding handleSummarizeInTab_def first
    by (simp add: bind_def try_catch_def rendered_sel s s' last settled_text_def Let_def
             split: sum.splits)
qed

section \<open>Idempotent rendering and the fallback document\<close>

lemma child_count_append: "is_element doc \<Longrightarrow> child_count (appendChild c doc) = Suc (child_count doc)"
  by (cases doc) simp_all

lemma child_count_overlay: "is_element doc \<Longrightarrow> child_count (with_overlay c doc) = Suc (child_count doc)"
  by (cases doc) simp_all

text \<open>
  Claim C4, as amended.  On a document that does not itself use the ids
  \<open>summarize-bubble\<close> and \<open>summarize-bubble-body\<close>, the first call of
  \<open>upsertSummaryBubble\<close> appends the overlay and a second call in succession rewrites
  that same overlay: the document is then the one a single call with the second text
  and mode would have made, it holds exactly one element with the overlay's id, and it
  has no more children than after the first call.  \<open>inPageRenderBubble\<close> of the other
  worker appends one more overlay on each call.
\<close>

theorem upsert_twice:
  assumes "bubble_free doc"
  shows "upsertSummaryBubble v1 l1 doc = with_bubble (dom_text v1) (opacity_for l1) doc
       \<and> upsertSummaryBubble v2 l2 (upsertSummaryBubble v1 l1 doc) =
           with_bubble (dom_text v2) (opacity_for l2) doc
       \<and> count_id bubble_id (upsertSummaryBubble v1 l1 doc) = 1
       \<and> count_id bubble_id (upsertSummaryBubble v2 l2 (upsertSummaryBubble v1 l1 doc)) = 1
       \<and> child_count (upsertSummaryBubble v2 l2 (upsertSummaryBubble v1 l1 doc)) =
           child_count (upsertSummaryBubble v1 l1 doc)
       \<and> child_count (inPageRenderBubble v2 (inPageRenderBubble v1 doc)) =
           Suc (child_count (inPageRenderBubble v1 doc))"
proof -
  have el: "is_element doc" using assms by (simp add: bubble_free_def)
  have a: "upsertSummaryBubble v1 l1 doc = with_bubble (dom_text v1) (opacity_for l1) doc"
    by (rule upsert_on_free[OF assms])
  have b: "upsertSummaryBubble v2 l2 (with_bubble (dom_text v1) (opacity_for l1) doc) =
           with_bubble (dom_text v2) (opacity_for l2) doc"
    by (rule upsert_on_bubble[OF assms])
  have c: "count_id bubble_id (with_bubble t op doc) = 1" for t op
    by (rule count_with_bubble[OF assms])
  have d: "child_count (with_bubble t op doc) = Suc (child_count doc)" for t op
    using el by (simp add: with_bubble_def child_count_overlay)
  have e: "child_count (inPageRenderBubble v2 (inPageRenderBubble v1 doc)) =
           Suc (child_count (inPageRenderBubble v1 doc))"
    using el by (cases doc) (simp_all add: inPageRenderBubble_def)
  show ?thesis unfolding a b using c d e by simp
qed

lemma empty_page_free: "bubble_free empty_page"
  using ids_distinct by (simp add: bubble_free_def empty_page_def)

theorem upsert_twice_witness:
  "bubble_free empty_page
   \<and> upsertSummaryBubble (JStr (ascii ''X'')) False
        (upsertSummaryBubble (JStr loading_text) True empty_page) =
       Element (ascii ''body'') [] []
         [Element div_tag bubble_id (ascii ''1'')
            [bubble_header, Element div_tag bubble_body_id [] [TextNode (ascii ''X'')]]]
   \<and> count_id bubble_id
        (upsertSummaryBubble (JStr (ascii ''X'')) False
           (upsertSummaryBubble (JStr loading_text) True empty_page)) = 1"
proof -
  let ?two = "upsertSummaryBubble (JStr (ascii ''X'')) False
                (upsertSummaryBubble (JStr loading_text) True empty_page)"
  note t = upsert_twice[OF empty_page_free, of "JStr loading_text" True "JStr (ascii ''X'')" False]
  from t have "?two = with_bubble (dom_text (JStr (ascii ''X''))) (opacity_for False) empty_page"
    by blast
  then have p: "?two = Element (ascii ''body'') [] []
         [Element div_tag bubble_id (ascii ''1'')
            [bubble_header, Element div_tag bubble_body_id [] [TextNode (ascii ''X'')]]]"
    by (simp add: with_bubble_def bubble_def empty_page_def dom_text_def opacity_for_def
          ascii_def)
  from t have c: "count_id bubble_id ?two = 1" by blast
  from empty_page_free p c show ?thesis by blast
qed

text \<open>
  Claim C4 as stated fails for the renderer of the other worker: two calls in succession
  on an empty page leave two overlays, the first still showing the first text.
\<close>

theorem render_twice_two_overlays:
  "inPageRenderBubble (JStr (ascii ''second'')) (inPageRenderBubble (JStr (ascii ''first'')) empty_page) =
     Element (ascii ''body'') [] []
       [Element div_tag [] [] [bubble_header, Element div_tag [] [] [TextNode (ascii ''first'')]],
        Element div_tag [] [] [bubble_header, Element div_tag [] [] [TextNode (ascii ''second'')]]]
   \<and> child_count (inPageRenderBubble (JStr (ascii ''second''))
                    (inPageRenderBubble (JStr (ascii ''first'')) empty_page)) = 2"
  by (simp add: inPageRenderBubble_def transient_bubble_def empty_page_def dom_text_def text_kids_def ascii_def)


















lemma encode_example:
  "encodeURIComponent (ascii ''<pre>&amp; x</pre>'') = Inr (ascii ''%3Cpre%3E%26amp%3B%20x%3C%2Fpre%3E'')"
  by (simp add: ascii_def uri_unescaped_def is_high_def is_low_def prepend_def percent_utf8_def
        utf8_def percent_def hex_digit_def)



section \<open>The listeners\<close>

lemma executeScript_ok:
  "injection w = None \<Longrightarrow> executeScript f w = (Inr (), rendered (f (page w)) w)"
  by (simp add: executeScript_def rendered_def)

lemma render_overlay: "inPageRenderBubble v doc = with_overlay (overlay (dom_text v)) doc"
  by (cases doc) (simp_all add: inPageRenderBubble_def transient_bubble_def text_kids_def overlay_def)

lemma showBubbleInTab_ok:
  "injection w = None \<Longrightarrow>
   showBubbleInTab v w = (Inr (), rendered (with_overlay (overlay (dom_text v)) (page w)) w)"
  by (simp add: showBubbleInTab_def executeScript_ok try_catch_def render_overlay)

lemma probe_ok: "injection w = None \<Longrightarrow> probe_selection w = (Inr (trim (selection w)), w)"
  by (simp add: probe_selection_def)

lemma trim_idem: "trim (trim s) = trim s"
proof (cases "trim s = []")
  case True
  have "trim [] = []" by (simp add: trim_def)
  with True show ?thesis by simp
next
  case False
  let ?u = "dropWhile is_ws s"
  have t: "trim s = rev (dropWhile is_ws (rev ?u))" by (simp add: trim_def)
  have "rev (takeWhile is_ws (rev ?u) @ dropWhile is_ws (rev ?u)) = rev (rev ?u)"
    by (simp only: takeWhile_dropWhile_id)
  then have "rev (dropWhile is_ws (rev ?u)) @ rev (takeWhile is_ws (rev ?u)) = ?u"
    by (simp only: rev_append rev_rev_ident)
  then have u: "?u = trim s @ rev (takeWhile is_ws (rev ?u))" by (simp only: t)
  have une: "?u \<noteq> []" using False u by (metis Nil_is_append_conv)
  have "\<not> is_ws (hd ?u)" using une by (rule hd_dropWhile)
  moreover have "hd ?u = hd (trim s)" using u False by (metis hd_append2)
  ultimately have front: "dropWhile is_ws (trim s) = trim s"
    using False by (cases "trim s") simp_all
  have "rev (dropWhile is_ws (rev ?u)) \<noteq> []" using False unfolding t .
  then have "dropWhile is_ws (rev ?u) \<noteq> []" by (metis rev_is_Nil_conv)
  then have "\<not> is_ws (hd (dropWhile is_ws (rev ?u)))" by (rule hd_dropWhile)
  then have rear: "dropWhile is_ws (rev (trim s)) = rev (trim s)"
    using False by (cases "dropWhile is_ws (rev ?u)") (simp_all add: t)
  show ?thesis by (subst (1) trim_def) (simp add: front rear)
qed

lemma trim_nonempty: "trim s \<noteq> [] \<Longrightarrow> s \<noteq> []"
  by (auto simp: trim_def)

lemma loop_fst_cong:
  "server w = server w' \<Longrightarrow> fetches w = fetches w' \<Longrightarrow> JSON_parse w = JSON_parse w' \<Longrightarrow>
   fst (postJSON_loop url b attempt delay w) = fst (postJSON_loop url b attempt delay w')"
proof (induction url b attempt delay w arbitrary: w' rule: postJSON_loop.induct)
  case (1 url b attempt delay w)
  obtain x w1 where f: "fetch url b w = (x, w1)" by (cases "fetch url b w")
  obtain x' w1' where f': "fetch url b w' = (x', w1')" by (cases "fetch url b w'")
  have xx: "x' = x" using f f' "1.prems" by (auto simp: fetch_def)
  have same: "server w1 = server w1'" "fetches w1 = fetches w1'" "JSON_parse w1 = JSON_parse w1'"
    using f f' "1.prems" by (auto simp: fetch_def)
  show ?case
  proof (cases x)
    case (Rejected e)
    then show ?thesis using f f' xx
      by (subst postJSON_loop.simps, subst (2) postJSON_loop.simps) simp
  next
    case (Responded res)
    show ?thesis
    proof (cases "\<not> res_ok res \<and> status res = 429 \<and> attempt < MAX_RETRIES")
      case True
      have "fst (postJSON_loop url b (attempt + 1) (delay * 2) (sleep delay w1)) =
            fst (postJSON_loop url b (attempt + 1) (delay * 2) (sleep delay w1'))"
        using True same by (intro "1.IH"[OF f[symmetric] Responded]) (simp_all add: sleep_def)
      then show ?thesis using True f f' xx Responded
        by (subst postJSON_loop.simps, subst (2) postJSON_loop.simps) simp
    next
      case False
      then show ?thesis using f f' xx Responded same
        by (subst postJSON_loop.simps, subst (2) postJSON_loop.simps) (auto split: option.splits)
    qed
  qed
qed

lemma summarize_fst_cong:
  assumes "server w = server w'" "fetches w = fetches w'" "JSON_parse w = JSON_parse w'"
  shows "fst (summarize cfg t tone ms w) = fst (summarize cfg t tone ms w')"
proof -
  have "fst (postJSON_loop url b a d w) = fst (postJSON_loop url b a d w')" for url b a d
    by (rule loop_fst_cong[OF assms])
  then show ?thesis
    by (auto simp: summarize_def postJSON_def split: jsval.splits)
qed

lemma summarize_fst_rendered:
  "fst (summarize cfg t tone ms (rendered p w)) = fst (summarize cfg t tone ms w)"
  by (rule summarize_fst_cong) (simp_all add: rendered_def)

text \<open>The first thing a call of the HTTP helper does is the request.\<close>

lemma loop_first:
  "\<exists>net. log (snd (postJSON_loop url b attempt delay w)) = log w @ Fetched url b # net
         \<and> list_all (carries url b) net"
proof -
  obtain x w1 where f: "fetch url b w = (x, w1)" by (cases "fetch url b w")
  have l1: "log w1 = log w @ [Fetched url b]" using f by (auto simp: fetch_def)
  have "net_step url b w1 (snd (postJSON_loop url b attempt delay w))"
  proof (cases x)
    case (Rejected e)
    then show ?thesis using f by (subst postJSON_loop.simps) (simp add: net_step_refl)
  next
    case (Responded res)
    show ?thesis
    proof (cases "\<not> res_ok res \<and> status res = 429 \<and> attempt < MAX_RETRIES")
      case True
      have "net_step url b w1 (snd (postJSON_loop url b (attempt + 1) (delay * 2) (sleep delay w1)))"
        using net_step_sleep loop_net_step net_step_trans by blast
      then show ?thesis using True f Responded by (subst postJSON_loop.simps) simp
    next
      case False
      then show ?thesis using f Responded
        by (subst postJSON_loop.simps) (auto simp: net_step_refl split: option.splits)
    qed
  qed
  then obtain net where "log (snd (postJSON_loop url b attempt delay w)) = log w1 @ net"
    "list_all (carries url b) net"
    using net_step_log by blast
  then show ?thesis using l1 by simp
qed

lemma summarize_first:
  assumes "trim s \<noteq> []"
  shows "\<exists>net. log (snd (summarize cfg (JStr s) tone ms w)) =
                 log w @ Fetched (summarize_url cfg)
                   \<lparr>req_text = JStr s, req_tone = dflt (JStr (ascii ''precise'')) tone,
                    req_maxSentences = dflt (JNum (Num 3)) ms\<rparr> # net
         \<and> list_all (carries (summarize_url cfg)
              \<lparr>req_text = JStr s, req_tone = dflt (JStr (ascii ''precise'')) tone,
               req_maxSentences = dflt (JNum (Num 3)) ms\<rparr>) net"
  using assms trim_nonempty[OF assms] loop_first
  by (simp add: summarize_def postJSON_def summarize_url_def)

lemma summarize_and_show_ok:
  assumes inj: "injection w = None"
  shows "summarize_and_show cfg sel w =
           (let (r, w2) = summarize cfg (JStr sel) (req_tone (handler_request sel w))
                            (req_maxSentences (handler_request sel w)) w
            in (Inr (), rendered (with_overlay (overlay (dom_text (settled_text r))) (page w)) w2))"
proof -
  let ?tone = "req_tone (handler_request sel w)" and ?ms = "req_maxSentences (handler_request sel w)"
  obtain r w2 where s: "summarize cfg (JStr sel) ?tone ?ms w = (r, w2)"
    by (cases "summarize cfg (JStr sel) ?tone ?ms w")
  have ns: "net_step (summarize_url cfg)
     \<lparr>req_text = JStr sel, req_tone = dflt (JStr (ascii ''precise'')) ?tone,
      req_maxSentences = dflt (JNum (Num 3)) ?ms\<rparr> w w2"
    using summarize_net_step[of cfg "JStr sel" ?tone ?ms w] s by simp
  have inj2: "injection w2 = None" using net_step_frame(2)[OF ns] inj by simp
  have pg2: "page w2 = page w" using net_step_frame(1)[OF ns] by simp
  have last: "showBubbleInTab v w2 =
              (Inr (), rendered (with_overlay (overlay (dom_text v)) (page w)) w2)" for v
    using showBubbleInTab_ok[OF inj2, of v] by (simp add: pg2)
  have s': "summarize cfg (JStr sel) (or_else (stored_tone w) (JStr (ascii ''precise'')))
              (JNum (clampMaxSentences (stored_maxSentences w))) w = (r, w2)"
    using s by (simp add: handler_request_def)
  show ?thesis
    unfolding summarize_and_show_def
    by (simp add: bind_def try_catch_def s s' last settled_text_def Let_def split: sum.splits)
qed

lemma handler_request_dflt:
  "\<lparr>req_text = JStr sel, req_tone = dflt (JStr (ascii ''precise'')) (req_tone (handler_request sel w)),
      req_maxSentences = dflt (JNum (Num 3)) (req_maxSentences (handler_request sel w))\<rparr> =
   handler_request sel w"
  by (simp add: handler_request_def dflt_or_else dflt_num)

lemma handler_request_rendered: "handler_request sel (rendered p w) = handler_request sel w"
  by (simp add: handler_request_def rendered_def)

lemma no_text_notice: "dom_text (JStr no_text_selected) = no_text_selected"
  by (simp add: dom_text_def)

text \<open>
  Claim C9, as amended.  On a tab that accepts injection, when the text of a
  context-menu click is missing or trims to the empty string, or the probe of a shortcut
  returns the empty string, each listener of each worker returns normally, and the host
  it leaves differs from the one it found by one render only (nothing was fetched):
  in \<open>src/extension/background.js\<close>, on a page whose own document does not use the two
  ids of the overlay, the bubble reading \<open>No text selected.\<close> at opacity 1; in the other
  worker one more overlay at the end of the page, reading \<open>No text selected.\<close>.
\<close>

theorem no_selection_notice:
  assumes "injection w = None" and "\<not> tab_missing tab"
    and "menuItemId info = summarize_selection"
  shows "(trim (case selectionText info of None \<Rightarrow> [] | Some s \<Rightarrow> s) = [] \<longrightarrow>
            (bubble_page doc (page w) \<longrightarrow>
               onClicked cfg info tab w =
                 (Inr (), rendered (with_bubble no_text_selected (ascii ''1'') doc) w))
          \<and> onClicked_ngrok cfg info tab w =
               (Inr (), rendered (with_overlay (overlay no_text_selected) (page w)) w))
       \<and> (trim (selection w) = [] \<longrightarrow>
            (bubble_page doc (page w) \<longrightarrow>
               onCommand cfg summarize_selection tab w =
                 (Inr (), rendered (with_bubble no_text_selected (ascii ''1'') doc) w))
          \<and> onCommand_ngrok cfg summarize_selection tab w =
               (Inr (), rendered (with_overlay (overlay no_text_selected) (page w)) w))"
proof -
  have notice: "showBubble (JStr no_text_selected) False w =
                (Inr (), rendered (with_bubble no_text_selected (ascii ''1'') doc) w)"
    if "bubble_page doc (page w)"
    using showBubble_ok[OF assms(1) that, of "JStr no_text_selected" False]
    by (simp add: no_text_notice opacity_for_def)
  show ?thesis
    using assms
    by (auto simp: onClicked_def onCommand_def onClicked_ngrok_def onCommand_ngrok_def
          notice showBubbleInTab_ok no_text_notice probe_ok bind_def try_catch_def)
qed

lemma empty_page_bubble_page: "bubble_page empty_page empty_page"
  by (simp add: bubble_page_def empty_page_free)

lemma notice_pages:
  "with_bubble no_text_selected (ascii ''1'') empty_page =
     Element (ascii ''body'') [] []
       [Element div_tag bubble_id (ascii ''1'')
          [bubble_header, Element div_tag bubble_body_id [] [TextNode (ascii ''No text selected.'')]]]"
  "with_overlay (overlay no_text_selected) empty_page =
     Element (ascii ''body'') [] []
       [Element div_tag [] []
          [bubble_header, Element div_tag [] [] [TextNode (ascii ''No text selected.'')]]]"
  by (simp_all add: with_bubble_def bubble_def overlay_def empty_page_def no_text_selected_def
        ascii_def)

theorem no_selection_notice_witness:
  "onClicked onrender_config \<lparr>menuItemId = summarize_selection, selectionText = None\<rparr> (Some 1)
     unselected_world =
     (Inr (), unselected_world
        \<lparr>page := Element (ascii ''body'') [] []
           [Element div_tag bubble_id (ascii ''1'')
              [bubble_header,
               Element div_tag bubble_body_id [] [TextNode (ascii ''No text selected.'')]]],
         log := [Rendered (Element (ascii ''body'') [] []
           [Element div_tag bubble_id (ascii ''1'')
              [bubble_header,
               Element div_tag bubble_body_id [] [TextNode (ascii ''No text selected.'')]]])]\<rparr>)
   \<and> onCommand onrender_config summarize_selection (Some 1) unselected_world =
     (Inr (), unselected_world
        \<lparr>page := Element (ascii ''body'') [] []
           [Element div_tag bubble_id (ascii ''1'')
              [bubble_header,
               Element div_tag bubble_body_id [] [TextNode (ascii ''No text selected.'')]]],
         log := [Rendered (Element (ascii ''body'') [] []
           [Element div_tag bubble_id (ascii ''1'')
              [bubble_header,
               Element div_tag bubble_body_id [] [TextNode (ascii ''No text selected.'')]]])]\<rparr>)
   \<and> onClicked_ngrok ngrok_config \<lparr>menuItemId = summarize_selection, selectionText = Some (ascii '' '')\<rparr>
       (Some 1) unselected_world =
     (Inr (), unselected_world
        \<lparr>page := Element (ascii ''body'') [] []
           [Element div_tag [] []
              [bubble_header, Element div_tag [] [] [TextNode (ascii ''No text selected.'')]]],
         log := [Rendered (Element (ascii ''body'') [] []
           [Element div_tag [] []
              [bubble_header, Element div_tag [] [] [TextNode (ascii ''No text selected.'')]]])]\<rparr>)
   \<and> onCommand_ngrok ngrok_config summarize_selection (Some 1) unselected_world =
     (Inr (), unselected_world
        \<lparr>page := Element (ascii ''body'') [] []
           [Element div_tag [] []
              [bubble_header, Element div_tag [] [] [TextNode (ascii ''No text selected.'')]]],
         log := [Rendered (Element (ascii ''body'') [] []
           [Element div_tag [] []
              [bubble_header, Element div_tag [] [] [TextNode (ascii ''No text selected.'')]]])]\<rparr>)"
proof -
  let ?w = unselected_world
  have inj: "injection ?w = None" by (simp add: unselected_world_def sample_world_sel)
  have tab: "\<not> tab_missing (Some 1)" by (simp add: tab_missing_def)
  have pg: "page ?w = empty_page" by (simp add: unselected_world_def sample_world_sel)
  have bp: "bubble_page empty_page (page ?w)" by (simp add: pg empty_page_bubble_page)
  have sel: "trim (selection ?w) = []"
    by (simp add: unselected_world_def sample_world_sel trim_def ascii_def is_ws_def)
  have m1: "menuItemId \<lparr>menuItemId = summarize_selection, selectionText = None\<rparr> = summarize_selection"
    by simp
  have m2: "menuItemId \<lparr>menuItemId = summarize_selection, selectionText = Some (ascii '' '')\<rparr> =
            summarize_selection" by simp
  have s1: "trim (case selectionText \<lparr>menuItemId = summarize_selection, selectionText = None\<rparr> of
                   None \<Rightarrow> [] | Some s \<Rightarrow> s) = []" by (simp add: trim_def)
  have s2: "trim (case selectionText \<lparr>menuItemId = summarize_selection, selectionText = Some (ascii '' '')\<rparr> of
                   None \<Rightarrow> [] | Some s \<Rightarrow> s) = []" by (simp add: trim_def ascii_def is_ws_def)
  note a = no_selection_notice[OF inj tab m1, of empty_page onrender_config]
  note b = no_selection_notice[OF inj tab m2, of empty_page ngrok_config]
  have l: "rendered p ?w = ?w\<lparr>page := p, log := [Rendered p]\<rparr>" for p
    by (simp add: rendered_def unselected_world_def sample_world_sel)
  from a b s1 s2 sel bp show ?thesis by (simp add: pg l notice_pages)
qed

text \<open>
  Claim C9 as stated fails on a tab that refuses injection: the context-menu listener of
  \<open>src/extension/background.js\<close>, given no selection text, shows nothing and is rejected
  with the error of the host.
\<close>

theorem no_notice_on_refusing_tab:
  "injection restricted_world = Some (Error (ascii ''Cannot access a chrome:// URL''))
   \<and> onClicked onrender_config \<lparr>menuItemId = summarize_selection, selectionText = None\<rparr> (Some 1)
       restricted_world =
       (Inl (Error (ascii ''Cannot access a chrome:// URL'')), restricted_world)"
  by (simp add: onClicked_def showBubble_def executeScript_def restricted_world_def
        tab_missing_def trim_def)

lemma handle_trace:
  assumes inj: "injection w = None" and pg: "bubble_page doc (page w)" and sel: "trim sel \<noteq> []"
  shows "\<exists>net. list_all (carries (summarize_url cfg) (handler_request sel w)) net
           \<and> fst (handleSummarizeInTab cfg sel w) = Inr ()
           \<and> page (snd (handleSummarizeInTab cfg sel w)) =
               with_bubble (dom_text (settled_text (fst (summarize cfg (JStr sel)
                 (req_tone (handler_request sel w)) (req_maxSentences (handler_request sel w)) w))))
                 (ascii ''1'') doc
           \<and> log (snd (handleSummarizeInTab cfg sel w)) =
               log w @ [Rendered (with_bubble loading_text (ascii ''0.75'') doc),
                        Fetched (summarize_url cfg) (handler_request sel w)] @ net @
               [Rendered (with_bubble (dom_text (settled_text (fst (summarize cfg (JStr sel)
                 (req_tone (handler_request sel w)) (req_maxSentences (handler_request sel w)) w))))
                 (ascii ''1'') doc)]"
proof -
  let ?w1 = "rendered (with_bubble loading_text (ascii ''0.75'') doc) w"
  let ?tone = "req_tone (handler_request sel w)" and ?ms = "req_maxSentences (handler_request sel w)"
  obtain r w2 where s: "summarize cfg (JStr sel) ?tone ?ms ?w1 = (r, w2)"
    by (cases "summarize cfg (JStr sel) ?tone ?ms ?w1")
  have r: "fst (summarize cfg (JStr sel) ?tone ?ms w) = r"
    using summarize_fst_rendered[of cfg "JStr sel" ?tone ?ms _ w] s by (metis fst_conv)
  from summarize_first[OF sel, of cfg ?tone ?ms ?w1]
  obtain net where net: "log w2 = log ?w1 @ Fetched (summarize_url cfg) (handler_request sel w) # net"
    "list_all (carries (summarize_url cfg) (handler_request sel w)) net"
    unfolding handler_request_dflt s by auto
  have h: "handleSummarizeInTab cfg sel w =
             (Inr (), rendered (with_bubble (dom_text (settled_text r)) (ascii ''1'') doc) w2)"
    using handle_ok[OF inj pg, of cfg sel] s by simp
  show ?thesis
    unfolding r h using net by (intro exI[of _ net]) (simp add: rendered_sel)
qed


lemma onClicked_handle:
  assumes "menuItemId info = summarize_selection" "\<not> tab_missing tab"
    and "trim (case selectionText info of None \<Rightarrow> [] | Some s \<Rightarrow> s) = sel" "sel \<noteq> []"
  shows "onClicked cfg info tab w = handleSummarizeInTab cfg sel w"
    and "onClicked_ngrok cfg info tab w = summarize_and_show cfg sel w"
  using assms by (simp_all add: onClicked_def onClicked_ngrok_def)

lemma onCommand_handle:
  assumes "injection w = None" "\<not> tab_missing tab" "trim (selection w) = sel" "sel \<noteq> []"
  shows "fst (handleSummarizeInTab cfg sel w) = Inr () \<Longrightarrow>
         onCommand cfg summarize_selection tab w = handleSummarizeInTab cfg sel w"
    and "onCommand_ngrok cfg summarize_selection tab w = summarize_and_show cfg sel w"
  using assms
  by (auto simp: onCommand_def onCommand_ngrok_def probe_ok bind_def try_catch_def
           split: prod.splits sum.splits)

section \<open>Loading bubble, then result\<close>

lemma summarize_once:
  assumes "server w (fetches w) = Responded r" "res_ok r" "JSON_parse w (body r) = Some v"
    and "trim s \<noteq> []"
  shows "summarize cfg (JStr s) tone ms w =
           (Inr v, w\<lparr>fetches := Suc (fetches w),
                      log := log w @ [Fetched (summarize_url cfg)
                        \<lparr>req_text = JStr s, req_tone = dflt (JStr (ascii ''precise'')) tone,
                         req_maxSentences = dflt (JNum (Num 3)) ms\<rparr>]\<rparr>)"
proof -
  have "s \<noteq> []" using assms(4) by (auto simp: trim_def)
  then show ?thesis
    using assms by (simp add: summarize_def postJSON_def loop_ok summarize_url_def)
qed

lemma clamp_undefined: "clampMaxSentences JUndefined = Num 3"
  by (simp add: clampMaxSentences_def or_else_def parseInt_def ascii_def is_ws_def is_digit_def
        digits_value_def)

lemma trim_some_text: "trim (ascii ''some text'') = ascii ''some text''"
  by (simp add: trim_def ascii_def is_ws_def)

lemma some_text_nonempty: "ascii ''some text'' \<noteq> []"
  by (simp add: ascii_def)

lemma sample_handler_request: "handler_request (ascii ''some text'') (sample_world srv) = sample_request"
  by (simp add: handler_request_def sample_world_sel or_else_def clamp_undefined sample_request_def)

text \<open>
  Claim C6, as amended.  In the worker of \<open>src/extension/background.js\<close>, for a trigger
  with a tab that accepts injection and whose own document does not use the two ids of
  the overlay (the page may hold the bubble of an earlier run): once the context-menu or
  shortcut listener has a selection that is not empty after trimming, it renders the
  bubble with \<open>Summarizing...\<close> (the ellipsis character) at opacity 0.75, then sends the
  request for that selection to \<open>/summarize\<close>, followed by nothing but the waits and
  repeated requests of the call, and then sets that same bubble to what the request
  settled with (summary, placeholder or \<open>Error: ...\<close>) at opacity 1.  That last render
  is the last event and the state the page is left in; the listener returns normally.
\<close>

theorem loading_then_result:
  fixes cfg :: config and w :: world and sel :: jsstring
  defines "settled \<equiv> dom_text (settled_text (fst (summarize cfg (JStr sel)
             (req_tone (handler_request sel w)) (req_maxSentences (handler_request sel w)) w)))"
  assumes "injection w = None" and "bubble_page doc (page w)" and "\<not> tab_missing tab"
    and "sel \<noteq> []"
  shows "(menuItemId info = summarize_selection \<and>
          trim (case selectionText info of None \<Rightarrow> [] | Some s \<Rightarrow> s) = sel \<longrightarrow>
            (\<exists>net. list_all (carries (summarize_url cfg) (handler_request sel w)) net
               \<and> fst (onClicked cfg info tab w) = Inr ()
               \<and> log (snd (onClicked cfg info tab w)) =
                   log w @ [Rendered (with_bubble loading_text (ascii ''0.75'') doc),
                            Fetched (summarize_url cfg) (handler_request sel w)] @ net @
                   [Rendered (with_bubble settled (ascii ''1'') doc)]
               \<and> page (snd (onClicked cfg info tab w)) = with_bubble settled (ascii ''1'') doc))
       \<and> (trim (selection w) = sel \<longrightarrow>
            (\<exists>net. list_all (carries (summarize_url cfg) (handler_request sel w)) net
               \<and> fst (onCommand cfg summarize_selection tab w) = Inr ()
               \<and> log (snd (onCommand cfg summarize_selection tab w)) =
                   log w @ [Rendered (with_bubble loading_text (ascii ''0.75'') doc),
                            Fetched (summarize_url cfg) (handler_request sel w)] @ net @
                   [Rendered (with_bubble settled (ascii ''1'') doc)]
               \<and> page (snd (onCommand cfg summarize_selection tab w)) =
                   with_bubble settled (ascii ''1'') doc))"
proof -
  have trace: "\<exists>net. list_all (carries (summarize_url cfg) (handler_request sel w)) net
      \<and> fst (handleSummarizeInTab cfg sel w) = Inr ()
      \<and> page (snd (handleSummarizeInTab cfg sel w)) = with_bubble settled (ascii ''1'') doc
      \<and> log (snd (handleSummarizeInTab cfg sel w)) =
         log w @ [Rendered (with_bubble loading_text (ascii ''0.75'') doc),
                  Fetched (summarize_url cfg) (handler_request sel w)] @ net @
         [Rendered (with_bubble settled (ascii ''1'') doc)]"
    if "trim sel \<noteq> []"
    using handle_trace[OF assms(2,3) that, of cfg] unfolding settled_def .
  have menu: "onClicked cfg info tab w = handleSummarizeInTab cfg sel w" "trim sel \<noteq> []"
    if "menuItemId info = summarize_selection"
       "trim (case selectionText info of None \<Rightarrow> [] | Some s \<Rightarrow> s) = sel"
    using onClicked_handle(1)[OF that(1) assms(4) that(2) assms(5)] that(2) assms(5) trim_idem
    by auto
  have key: "onCommand cfg summarize_selection tab w = handleSummarizeInTab cfg sel w"
            "trim sel \<noteq> []"
    if "trim (selection w) = sel"
  proof -
    show t: "trim sel \<noteq> []" using that assms(5) trim_idem by auto
    from trace[OF t] have "fst (handleSummarizeInTab cfg sel w) = Inr ()" by blast
    then show "onCommand cfg summarize_selection tab w = handleSummarizeInTab cfg sel w"
      using onCommand_handle(1)[OF assms(2) assms(4) that assms(5)] by simp
  qed
  show ?thesis
  proof (intro conjI impI)
    assume a: "menuItemId info = summarize_selection \<and>
          trim (case selectionText info of None \<Rightarrow> [] | Some s \<Rightarrow> s) = sel"
    from trace[OF menu(2)] a menu(1)
    show "\<exists>net. list_all (carries (summarize_url cfg) (handler_request sel w)) net
               \<and> fst (onClicked cfg info tab w) = Inr ()
               \<and> log (snd (onClicked cfg info tab w)) =
                   log w @ [Rendered (with_bubble loading_text (ascii ''0.75'') doc),
                            Fetched (summarize_url cfg) (handler_request sel w)] @ net @
                   [Rendered (with_bubble settled (ascii ''1'') doc)]
               \<and> page (snd (onClicked cfg info tab w)) = with_bubble settled (ascii ''1'') doc"
      by auto
  next
    assume a: "trim (selection w) = sel"
    from trace[OF key(2)[OF a]] key(1)[OF a]
    show "\<exists>net. list_all (carries (summarize_url cfg) (handler_request sel w)) net
               \<and> fst (onCommand cfg summarize_selection tab w) = Inr ()
               \<and> log (snd (onCommand cfg summarize_selection tab w)) =
                   log w @ [Rendered (with_bubble loading_text (ascii ''0.75'') doc),
                            Fetched (summarize_url cfg) (handler_request sel w)] @ net @
                   [Rendered (with_bubble settled (ascii ''1'') doc)]
               \<and> page (snd (onCommand cfg summarize_selection tab w)) =
                   with_bubble settled (ascii ''1'') doc"
      by auto
  qed
qed

lemma sample_X_run:
  "summarize cfg (JStr (ascii ''some text'')) tone ms sample_world_X =
     (Inr (JObj [(ascii ''summary'', JStr (ascii ''X''))]),
      sample_world_X\<lparr>fetches := Suc (fetches sample_world_X),
         log := log sample_world_X @ [Fetched (summarize_url cfg)
            \<lparr>req_text = JStr (ascii ''some text''), req_tone = dflt (JStr (ascii ''precise'')) tone,
             req_maxSentences = dflt (JNum (Num 3)) ms\<rparr>]\<rparr>)"
  by (rule summarize_once[where r = \<open>\<lparr>status = 200, body = ascii ''{"summary":"X"}''\<rparr>\<close>])
     (simp_all add: sample_world_X_def sample_world_sel always_def res_ok_def sample_parse_X
        trim_some_text some_text_nonempty)

lemma sample_X_summary:
  "fst (summarize cfg (JStr (ascii ''some text'')) tone ms sample_world_X) =
   Inr (JObj [(ascii ''summary'', JStr (ascii ''X''))])"
  by (simp add: sample_X_run)

lemma settled_X:
  "dom_text (settled_text (Inr (JObj [(ascii ''summary'', JStr (ascii ''X''))]))) = ascii ''X''"
  by (simp add: settled_text_def get_summary_def or_else_def dom_text_def ascii_def)

lemma bubble_pages:
  "with_bubble t op empty_page =
     Element (ascii ''body'') [] []
       [Element div_tag bubble_id op
          [bubble_header, Element div_tag bubble_body_id [] (if t = [] then [] else [TextNode t])]]"
  "with_overlay (overlay t) empty_page =
     Element (ascii ''body'') [] []
       [Element div_tag [] []
          [bubble_header, Element div_tag [] [] (if t = [] then [] else [TextNode t])]]"
  by (simp_all add: with_bubble_def bubble_def overlay_def empty_page_def)

lemma loading_text_nonempty: "loading_text \<noteq> []"
  by (simp add: loading_text_def)

theorem loading_then_result_witness:
  "\<exists>net. list_all (carries (summarize_url onrender_config) sample_request) net
     \<and> fst (onCommand onrender_config summarize_selection (Some 1) sample_world_X) = Inr ()
     \<and> log (snd (onCommand onrender_config summarize_selection (Some 1) sample_world_X)) =
         [Rendered (Element (ascii ''body'') [] []
            [Element div_tag bubble_id (ascii ''0.75'')
               [bubble_header, Element div_tag bubble_body_id [] [TextNode loading_text]]]),
          Fetched (summarize_url onrender_config) sample_request] @ net @
         [Rendered (Element (ascii ''body'') [] []
            [Element div_tag bubble_id (ascii ''1'')
               [bubble_header, Element div_tag bubble_body_id [] [TextNode (ascii ''X'')]]])]
     \<and> page (snd (onCommand onrender_config summarize_selection (Some 1) sample_world_X)) =
         Element (ascii ''body'') [] []
            [Element div_tag bubble_id (ascii ''1'')
               [bubble_header, Element div_tag bubble_body_id [] [TextNode (ascii ''X'')]]]"
proof -
  let ?w = sample_world_X
  have inj: "injection ?w = None" by (simp add: sample_world_X_def sample_world_sel)
  have bp: "bubble_page empty_page (page ?w)"
    by (simp add: sample_world_X_def sample_world_sel empty_page_bubble_page)
  have tab: "\<not> tab_missing (Some 1)" by (simp add: tab_missing_def)
  have sel: "trim (selection ?w) = ascii ''some text''"
    by (simp add: sample_world_X_def sample_world_sel trim_some_text)
  have lg: "log ?w = []" by (simp add: sample_world_X_def sample_world_sel)
  have hr: "handler_request (ascii ''some text'') ?w = sample_request"
    by (simp add: sample_world_X_def sample_handler_request)
  have x: "ascii ''X'' \<noteq> []" by (simp add: ascii_def)
  from loading_then_result[OF inj bp tab some_text_nonempty, where cfg = onrender_config] sel
  show ?thesis
    by (simp add: sample_X_summary settled_X lg hr bubble_pages loading_text_nonempty x)
qed

text \<open>
  Claim C6 as stated fails for the other worker: its shortcut listener, with a selection
  and a server answering \<open>{"summary":"X"}\<close>, first sends the request and then renders
  once, with \<open>X\<close>.  No loading bubble is shown.
\<close>

theorem no_loading_bubble_ngrok:
  "onCommand_ngrok ngrok_config summarize_selection (Some 1) sample_world_X =
     (Inr (), sample_world_X
        \<lparr>fetches := 1,
         page := Element (ascii ''body'') [] []
           [Element div_tag [] [] [bubble_header, Element div_tag [] [] [TextNode (ascii ''X'')]]],
         log := [Fetched (summarize_url ngrok_config) sample_request,
                 Rendered (Element (ascii ''body'') [] []
                   [Element div_tag [] []
                      [bubble_header, Element div_tag [] [] [TextNode (ascii ''X'')]]])]\<rparr>)"
proof -
  let ?w = sample_world_X
  have inj: "injection ?w = None" by (simp add: sample_world_X_def sample_world_sel)
  have tab: "\<not> tab_missing (Some 1)" by (simp add: tab_missing_def)
  have sel: "trim (selection ?w) = ascii ''some text''"
    by (simp add: sample_world_X_def sample_world_sel trim_some_text)
  have hr: "handler_request (ascii ''some text'') ?w = sample_request"
    by (simp add: sample_world_X_def sample_handler_request)
  have x: "ascii ''X'' \<noteq> []" by (simp add: ascii_def)
  have s: "summarize ngrok_config (JStr (ascii ''some text'')) (req_tone sample_request)
             (req_maxSentences sample_request) ?w =
        (Inr (JObj [(ascii ''summary'', JStr (ascii ''X''))]),
         ?w\<lparr>fetches := Suc (fetches ?w),
            log := log ?w @ [Fetched (summarize_url ngrok_config) sample_request]\<rparr>)"
    by (simp add: sample_X_run) (simp add: sample_request_def dflt_def)
  have "onCommand_ngrok ngrok_config summarize_selection (Some 1) ?w =
        summarize_and_show ngrok_config (ascii ''some text'') ?w"
    by (rule onCommand_handle(2)[OF inj tab sel some_text_nonempty])
  also have "\<dots> = (Inr (), rendered (with_overlay (overlay (dom_text
       (settled_text (Inr (JObj [(ascii ''summary'', JStr (ascii ''X''))]))))) (page ?w))
       (?w\<lparr>fetches := Suc (fetches ?w),
            log := log ?w @ [Fetched (summarize_url ngrok_config) sample_request]\<rparr>))"
    by (simp add: summarize_and_show_ok[OF inj] hr s)
  finally show ?thesis
    by (simp add: rendered_def sample_world_X_def sample_world_sel settled_X bubble_pages x)
qed

section \<open>The placeholder for a missing summary\<close>



lemma sample_parse_empty: "sample_JSON_parse (ascii ''{}'') = Some (JObj [])"
  by (simp add: sample_JSON_parse_def ascii_def)






section \<open>What is shown on failure\<close>

















lemma json_num_defined: "dflt d (json_num x) = json_num x"
  by (cases x) (simp_all add: json_num_def dflt_def)

lemma dflt_str: "dflt d (JStr s) = JStr s"
  by (simp add: dflt_def)












section \<open>The sentence count that is sent\<close>

lemma sent_append: "sent_maxSentences (a @ b) = sent_maxSentences a @ sent_maxSentences b"
  by (simp add: sent_maxSentences_def)

lemma sent_carries:
  "list_all (carries url b) net \<Longrightarrow> set (sent_maxSentences net) \<subseteq> {req_maxSentences b}"
  by (induction net) (auto simp: sent_maxSentences_def carries_def split: event.splits)

lemma net_step_sent:
  assumes "net_step url b w w'"
  shows "set (sent_maxSentences (log w')) \<subseteq> set (sent_maxSentences (log w)) \<union> {req_maxSentences b}"
proof -
  from net_step_log[OF assms] obtain net where "log w' = log w @ net" "list_all (carries url b) net"
    by blast
  then show ?thesis using sent_carries[of url b net] by (auto simp: sent_append)
qed

lemma summarize_sent:
  "set (sent_maxSentences (log (snd (summarize cfg t tone ms w)))) \<subseteq>
   set (sent_maxSentences (log w)) \<union> {dflt (JNum (Num 3)) ms}"
  using net_step_sent[OF summarize_net_step[of cfg t tone ms w]] by simp

lemma executeScript_quiet:
  "sent_maxSentences (log (snd (executeScript f w))) = sent_maxSentences (log w)"
  "stored_maxSentences (snd (executeScript f w)) = stored_maxSentences w"
  "stored_tone (snd (executeScript f w)) = stored_tone w"
  by (simp_all add: executeScript_def sent_append sent_maxSentences_def split: option.splits)

lemma showBubble_quiet:
  "sent_maxSentences (log (snd (showBubble v l w))) = sent_maxSentences (log w)"
  "stored_maxSentences (snd (showBubble v l w)) = stored_maxSentences w"
  "stored_tone (snd (showBubble v l w)) = stored_tone w"
  by (simp_all add: showBubble_def executeScript_quiet)

lemma showBubbleInTab_quiet:
  "sent_maxSentences (log (snd (showBubbleInTab v w))) = sent_maxSentences (log w)"
  by (auto simp: showBubbleInTab_def try_catch_def executeScript_def sent_append
        sent_maxSentences_def split: option.splits jsval.splits sum.splits)

lemma parseInt_integer: "parseInt v \<noteq> Frac neg m e"
  by (simp add: parseInt_def Let_def)

lemma clamp_range:
  "clampMaxSentences raw = Num n \<Longrightarrow> 1 \<le> n \<and> n \<le> 10"
  using parseInt_integer[of "or_else raw (JStr (ascii ''3''))"]
  by (cases "parseInt (or_else raw (JStr (ascii ''3'')))") (auto simp: clampMaxSentences_def)

lemma clamp_value:
  "parseInt (or_else raw (JStr (ascii ''3''))) = Num k \<Longrightarrow>
   clampMaxSentences raw = Num (max 1 (min 10 k))"
  by (simp add: clampMaxSentences_def)

lemma handle_sent:
  "set (sent_maxSentences (log (snd (handleSummarizeInTab cfg sel w)))) \<subseteq>
   set (sent_maxSentences (log w)) \<union> {JNum (clampMaxSentences (stored_maxSentences w))}"
proof -
  obtain r1 w1 where s1: "showBubble (JStr loading_text) True w = (r1, w1)"
    by (cases "showBubble (JStr loading_text) True w")
  have q1: "sent_maxSentences (log w1) = sent_maxSentences (log w)"
    "stored_maxSentences w1 = stored_maxSentences w"
    using showBubble_quiet[of "JStr loading_text" True w] s1 by simp_all
  let ?ms = "JNum (clampMaxSentences (stored_maxSentences w))"
  let ?tone = "or_else (stored_tone w1) (JStr (ascii ''precise''))"
  obtain r2 w2 where s2: "summarize cfg (JStr sel) ?tone ?ms w1 = (r2, w2)"
    by (cases "summarize cfg (JStr sel) ?tone ?ms w1")
  have q2: "set (sent_maxSentences (log w2)) \<subseteq> set (sent_maxSentences (log w)) \<union> {?ms}"
    using summarize_sent[of cfg "JStr sel" ?tone ?ms w1] s2 q1 by (simp add: dflt_num)
  have fin: "sent_maxSentences (log (snd (showBubble v l w2))) = sent_maxSentences (log w2)" for v l
    by (rule showBubble_quiet)
  have fin2: "sent_maxSentences (log (snd (showBubble v' l' (snd (showBubble v l w2))))) =
              sent_maxSentences (log w2)" for v l v' l'
    by (simp add: showBubble_quiet)
  show ?thesis
  proof (cases r1)
    case (Inl e)
    then show ?thesis using s1 q1 by (auto simp: handleSummarizeInTab_def bind_def)
  next
    case (Inr u)
    have "sent_maxSentences (log (snd (handleSummarizeInTab cfg sel w))) = sent_maxSentences (log w2)"
      using s1 Inr s2 q1(2) fin fin2
      by (auto simp: handleSummarizeInTab_def bind_def try_catch_def Let_def
               split: sum.splits prod.splits)
         (metis snd_conv)+
    then show ?thesis using q2 by simp
  qed
qed


lemma show_sent:
  "set (sent_maxSentences (log (snd (summarize_and_show cfg sel w)))) \<subseteq>
   set (sent_maxSentences (log w)) \<union> {JNum (clampMaxSentences (stored_maxSentences w))}"
proof -
  let ?ms = "JNum (clampMaxSentences (stored_maxSentences w))"
  let ?tone = "or_else (stored_tone w) (JStr (ascii ''precise''))"
  obtain r2 w2 where s2: "summarize cfg (JStr sel) ?tone ?ms w = (r2, w2)"
    by (cases "summarize cfg (JStr sel) ?tone ?ms w")
  have q2: "set (sent_maxSentences (log w2)) \<subseteq> set (sent_maxSentences (log w)) \<union> {?ms}"
    using summarize_sent[of cfg "JStr sel" ?tone ?ms w] s2 by (simp add: dflt_num)
  have fin: "sent_maxSentences (log (snd (showBubbleInTab v w2))) = sent_maxSentences (log w2)" for v
    by (rule showBubbleInTab_quiet)
  have fin2: "sent_maxSentences (log (snd (showBubbleInTab v' (snd (showBubbleInTab v w2))))) =
              sent_maxSentences (log w2)" for v v'
    by (simp add: showBubbleInTab_quiet)
  have "sent_maxSentences (log (snd (summarize_and_show cfg sel w))) = sent_maxSentences (log w2)"
    using s2 fin fin2
    by (auto simp: summarize_and_show_def bind_def try_catch_def Let_def
             split: sum.splits prod.splits)
       (metis snd_conv)+
  then show ?thesis using q2 by simp
qed

lemma popup_sent:
  "set (sent_maxSentences (log (snd (snd (popup_click cfg tab pp w))))) \<subseteq>
   set (sent_maxSentences (log w)) \<union> {json_num (clampMaxSentences (JStr (maxEl_value pp)))}"
proof -
  let ?ms = "json_num (clampMaxSentences (JStr (maxEl_value pp)))"
  let ?w1 = "w\<lparr>stored_tone := JStr (toneEl_value pp), stored_maxSentences := ?ms\<rparr>"
  have s: "set (sent_maxSentences (log (snd (summarize cfg t (JStr (toneEl_value pp)) ?ms ?w1)))) \<subseteq>
           set (sent_maxSentences (log w)) \<union> {?ms}" for t
    using summarize_sent[of cfg t "JStr (toneEl_value pp)" ?ms ?w1] by (simp add: json_num_defined)
  show ?thesis
    using s
    by (auto simp: popup_click_def probe_selection_def Let_def onMessage_def json_num_defined
          dflt_str split: option.splits prod.splits sum.splits)
       (metis snd_conv subsetD insert_iff)+
qed

text \<open>
  Claim C1, as amended.  The callers that read a raw preference or the popup's field
  compute \<open>Math.max(1, Math.min(10, parseInt(raw || "3", 10)))\<close>: where that
  \<open>parseInt\<close> gives an integer \<open>k\<close> the result is \<open>k\<close> clamped into 1..10, and whenever the
  result is a number it lies in 1..10.  Every request the context-menu and shortcut
  handlers of either worker send carries that value for the stored preference, and every
  request the popup causes carries it for the popup's field.  \<open>summarize\<close> itself does
  not clamp: every request it sends carries the \<open>maxSentences\<close> it was given (3 only
  when that is \<open>undefined\<close>).
\<close>

theorem maxSentences_sent:
  "(parseInt (or_else raw (JStr (ascii ''3''))) = Num k \<longrightarrow>
      clampMaxSentences raw = Num (max 1 (min 10 k)))
   \<and> (clampMaxSentences raw = Num n \<longrightarrow> 1 \<le> n \<and> n \<le> 10)
   \<and> set (sent_maxSentences (log (snd (handleSummarizeInTab cfg sel w)))) \<subseteq>
       set (sent_maxSentences (log w)) \<union> {JNum (clampMaxSentences (stored_maxSentences w))}
   \<and> set (sent_maxSentences (log (snd (summarize_and_show cfg sel w)))) \<subseteq>
       set (sent_maxSentences (log w)) \<union> {JNum (clampMaxSentences (stored_maxSentences w))}
   \<and> set (sent_maxSentences (log (snd (snd (popup_click cfg tab pp w))))) \<subseteq>
       set (sent_maxSentences (log w)) \<union> {json_num (clampMaxSentences (JStr (maxEl_value pp)))}
   \<and> set (sent_maxSentences (log (snd (summarize cfg t tone ms w)))) \<subseteq>
       set (sent_maxSentences (log w)) \<union> {dflt (JNum (Num 3)) ms}"
  using clamp_value[of raw k] clamp_range[of raw n] handle_sent[of cfg sel w]
    show_sent[of cfg sel w] popup_sent[of cfg tab pp w] summarize_sent[of cfg t tone ms w]
  by blast

lemma show_nat_99: "show_nat 99 = ascii ''99''"
  by code_simp

lemma parse_samples:
  "parseInt (or_else (JStr (ascii ''0'')) (JStr (ascii ''3''))) = Num 0"
  "parseInt (or_else (JStr (ascii ''99'')) (JStr (ascii ''3''))) = Num 99"
  "parseInt (or_else (JNum (Num 99)) (JStr (ascii ''3''))) = Num 99"
  "parseInt (or_else (JNum (Num 0)) (JStr (ascii ''3''))) = Num 3"
  "parseInt (or_else JUndefined (JStr (ascii ''3''))) = Num 3"
  "parseInt (or_else (JStr (ascii '' -7 days'')) (JStr (ascii ''3''))) = Num (- 7)"
  by (simp_all add: or_else_def parseInt_def show_int_def show_magnitude_def show_nat_99
        ascii_def is_ws_def is_digit_def digits_value_def)

theorem maxSentences_sent_witness:
  "clampMaxSentences (JStr (ascii ''0'')) = Num 1
   \<and> clampMaxSentences (JStr (ascii ''99'')) = Num 10
   \<and> clampMaxSentences (JNum (Num 99)) = Num 10
   \<and> clampMaxSentences (JNum (Num 0)) = Num 3
   \<and> clampMaxSentences JUndefined = Num 3
   \<and> clampMaxSentences (JStr (ascii '' -7 days'')) = Num 1"
proof -
  note t = maxSentences_sent[where cfg = ngrok_config and sel = "[]" and w = sample_world_empty
             and tab = None and pp = sample_popup and t = JUndefined and tone = JUndefined
             and ms = JUndefined and n = 0]
  have "clampMaxSentences (JStr (ascii ''0'')) = Num 1"
    using t[where raw = "JStr (ascii ''0'')" and k = 0] parse_samples(1) by simp
  moreover have "clampMaxSentences (JStr (ascii ''99'')) = Num 10"
    using t[where raw = "JStr (ascii ''99'')" and k = 99] parse_samples(2) by simp
  moreover have "clampMaxSentences (JNum (Num 99)) = Num 10"
    using t[where raw = "JNum (Num 99)" and k = 99] parse_samples(3) by simp
  moreover have "clampMaxSentences (JNum (Num 0)) = Num 3"
    using t[where raw = "JNum (Num 0)" and k = 3] parse_samples(4) by simp
  moreover have "clampMaxSentences JUndefined = Num 3"
    using t[where raw = JUndefined and k = 3] parse_samples(5) by simp
  moreover have "clampMaxSentences (JStr (ascii '' -7 days'')) = Num 1"
    using t[where raw = "JStr (ascii '' -7 days'')" and k = "- 7"] parse_samples(6) by simp
  ultimately show ?thesis by blast
qed

text \<open>
  Claim C1 as stated fails on the message path: a \<open>SUMMARIZE_SELECTION\<close> message whose
  payload carries \<open>maxSentences: 99\<close> makes the worker send 99 to the service.
\<close>

theorem message_path_sends_99:
  "fst (onMessage ngrok_config (ascii ''SUMMARIZE_SELECTION'')
          (Some \<lparr>p_text = JStr (ascii ''some text''), p_tone = JStr (ascii ''precise''),
                 p_maxSentences = JNum (Num 99)\<rparr>) sample_world_empty) = Some (Reply_ok (JObj []))
   \<and> log (snd (onMessage ngrok_config (ascii ''SUMMARIZE_SELECTION'')
          (Some \<lparr>p_text = JStr (ascii ''some text''), p_tone = JStr (ascii ''precise''),
                 p_maxSentences = JNum (Num 99)\<rparr>) sample_world_empty)) =
       [Fetched (summarize_url ngrok_config)
          \<lparr>req_text = JStr (ascii ''some text''), req_tone = JStr (ascii ''precise''),
           req_maxSentences = JNum (Num 99)\<rparr>]"
proof -
  have "summarize ngrok_config (JStr (ascii ''some text'')) (JStr (ascii ''precise''))
          (JNum (Num 99)) sample_world_empty =
        (Inr (JObj []),
         sample_world_empty\<lparr>fetches := Suc (fetches sample_world_empty),
            log := log sample_world_empty @ [Fetched (summarize_url ngrok_config)
               \<lparr>req_text = JStr (ascii ''some text''),
                req_tone = dflt (JStr (ascii ''precise'')) (JStr (ascii ''precise'')),
                req_maxSentences = dflt (JNum (Num 3)) (JNum (Num 99))\<rparr>]\<rparr>)"
    by (rule summarize_once[where r = "\<lparr>status = 200, body = ascii ''{}''\<rparr>"])
       (simp_all add: sample_world_empty_def sample_world_sel always_def res_ok_def
          sample_parse_empty trim_some_text some_text_nonempty)
  then show ?thesis
    by (simp add: onMessage_def dflt_str dflt_num sample_world_empty_def sample_world_sel)
qed

end
